theory Spec2Isabelle
  imports Main
begin

section \<open>Data model of the download engine\<close>

text \<open>
  The development embeds \<^verbatim>\<open>src/core/download_manager.py\<close> (classes \<^verbatim>\<open>Download\<close> and
  \<^verbatim>\<open>DownloadManager\<close>) and the accessors of \<^verbatim>\<open>PrivacyManager\<close> and
  \<^verbatim>\<open>SettingsManager\<close> it calls.

  The status of a download is one of six string literals in the source; they are the
  constructors of \<open>status\<close>.
\<close>

datatype status = Waiting | Downloading | Paused | Completed | Failed | Canceled

text \<open>
  One entry of \<^verbatim>\<open>Download.chunks\<close>: the dictionary built in
  \<^verbatim>\<open>_download_in_chunks\<close>, with the chunk status strings as a datatype. The key
  \<^verbatim>\<open>'error'\<close> is absent until a chunk fails.
\<close>

datatype chunk_status = waiting | downloading | completed | failed

text \<open>
  The text \<^verbatim>\<open>str(e)\<close> of an exception, as the fields \<^verbatim>\<open>error\<close> keep it:
  \<open>Message\<close> carries a text the model knows (a literal of the source, or the text of
  a network error, which the environment gives); the other constructors stand for the
  text of the library exception of that name, which is not empty.
\<close>

datatype err = Message string | ValueError | ZeroDivisionError | FileNotFoundError

record chunk =
  start :: int
  end_c :: int
  temp_file :: string
  downloaded_c :: int
  status_c :: chunk_status
  error_c :: "err option"

text \<open>
  The class \<^verbatim>\<open>Download\<close>. The fields \<^verbatim>\<open>id\<close> and \<^verbatim>\<open>size\<close> carry a suffix
  because HOL has constants of these names. The fields \<^verbatim>\<open>progress\<close>, \<^verbatim>\<open>speed\<close>,
  \<^verbatim>\<open>eta\<close> and \<^verbatim>\<open>start_time\<close> are computed in floating point from the wall
  clock and are left out, as is the never-read \<^verbatim>\<open>chunk_status\<close>.
\<close>

record download =
  id_d :: string
  url :: string
  target_dir :: string
  filename :: string
  size_d :: int
  downloaded :: int
  status :: status
  error :: "err option"
  privacy_mode :: string
  chunks :: "chunk list"

text \<open>The Qt signals of \<^verbatim>\<open>DownloadManager\<close>; the model logs each \<^verbatim>\<open>emit\<close>.\<close>

datatype signal =
    download_added string
  | download_started string
  | download_completed string
  | download_failed string err
  | download_paused string
  | download_resumed string
  | download_canceled string
  | download_progress string int int

text \<open>
  The attributes that \<^verbatim>\<open>DownloadManager.__init__\<close> reads from the settings store.
  \<^verbatim>\<open>chunk_min_size\<close> is in bytes: the constructor multiplies the setting, which is in
  megabytes, by \<open>1024 * 1024\<close>.
\<close>

record config =
  chunk_enabled :: bool
  chunk_count :: int
  chunk_min_size :: int
  file_conflict :: string
  retry_count :: int

definition chunk_min_size_bytes :: "int \<Rightarrow> int" where
  "chunk_min_size_bytes mb = mb * 1024 * 1024"

text \<open>
  The settings that \<^verbatim>\<open>_get_headers\<close> reads through
  \<^verbatim>\<open>SettingsManager.get_setting(key, default)\<close> at each call. \<open>None\<close> is a key
  that no section of the store holds, for which \<^verbatim>\<open>get_setting\<close> returns the
  default. The values have the types the settings dialog writes.
\<close>

record settings =
  user_agent_type :: "string option"
  custom_user_agent :: "string option"
  send_referer :: "bool option"

definition get_setting :: "'a option \<Rightarrow> 'a \<Rightarrow> 'a" where
  "get_setting stored dflt = (case stored of None \<Rightarrow> dflt | Some v \<Rightarrow> v)"

text \<open>
  The entries of \<^verbatim>\<open>PrivacyManager.settings\<close> that the engine reads; the constructor
  of \<^verbatim>\<open>PrivacyManager\<close> gives each a default, so each is present.
\<close>

record privacy =
  tor_enabled :: bool
  tor_address :: string
  tor_port :: int
  proxy_type :: string
  proxy_address :: string
  proxy_port :: int
  proxy_username :: string
  proxy_password :: string

definition is_tor_enabled :: "privacy \<Rightarrow> bool" where
  "is_tor_enabled p = tor_enabled p"

text \<open>
  The manager. Python's \<^verbatim>\<open>self.downloads\<close> maps an id to a reference to a
  \<^verbatim>\<open>Download\<close> object, and a worker keeps its reference after the id has been
  deleted; so the model has a store \<open>objs\<close> of objects, addressed by natural numbers,
  and \<open>downloads\<close> maps ids to addresses. \<open>download_queue\<close> is the FIFO queue of ids.
\<close>

type_synonym ref = nat

record manager =
  cfg :: config
  settings_manager :: settings
  privacy_manager :: privacy
  downloads :: "string \<rightharpoonup> ref"
  objs :: "ref \<Rightarrow> download"
  next_ref :: ref
  download_queue :: "string list"
  active_workers :: int
  signals :: "signal list"

definition emit :: "signal \<Rightarrow> manager \<Rightarrow> manager" where
  "emit sg m = m\<lparr>signals := signals m @ [sg]\<rparr>"

definition set_status :: "ref \<Rightarrow> status \<Rightarrow> manager \<Rightarrow> manager" where
  "set_status r st m = m\<lparr>objs := (objs m)(r := (objs m r)\<lparr>status := st\<rparr>)\<rparr>"

section \<open>Path functions of the standard library\<close>

text \<open>
  \<^verbatim>\<open>os.path\<close> on POSIX, as \<^verbatim>\<open>posixpath\<close> and \<^verbatim>\<open>genericpath\<close> define the
  functions the engine calls.
\<close>

definition basename :: "string \<Rightarrow> string" where
  "basename p = rev (takeWhile (\<lambda>c. c \<noteq> CHR ''/'') (rev p))"

definition rstrip_sep :: "string \<Rightarrow> string" where
  "rstrip_sep p = rev (dropWhile (\<lambda>c. c = CHR ''/'') (rev p))"

definition dirname :: "string \<Rightarrow> string" where
  "dirname p =
     (let head = rev (dropWhile (\<lambda>c. c \<noteq> CHR ''/'') (rev p))
      in if head \<noteq> [] \<and> \<not> list_all (\<lambda>c. c = CHR ''/'') head then rstrip_sep head else head)"

definition join :: "string \<Rightarrow> string \<Rightarrow> string" where
  "join a b =
     (if b \<noteq> [] \<and> hd b = CHR ''/'' then b
      else if a = [] \<or> last a = CHR ''/'' then a @ b
      else a @ ''/'' @ b)"

text \<open>
  \<^verbatim>\<open>os.path.splitext\<close>: the extension starts at the last dot of the last path
  component, unless that component has only dots before it.
\<close>

definition splitext :: "string \<Rightarrow> string \<times> string" where
  "splitext p =
     (let name = basename p;
          head = take (length p - length name) p
      in if CHR ''.'' \<in> set name then
           (let ext = CHR ''.'' # rev (takeWhile (\<lambda>c. c \<noteq> CHR ''.'') (rev name));
                stem = take (length name - length ext) name
            in if list_ex (\<lambda>c. c \<noteq> CHR ''.'') stem then (head @ stem, ext) else (p, []))
         else (p, []))"

text \<open>\<^verbatim>\<open>str\<close> of a non-negative integer, and of any integer.\<close>

definition digit_char :: "nat \<Rightarrow> char" where
  "digit_char d = char_of (48 + d)"

fun str_nat :: "nat \<Rightarrow> string" where
  "str_nat n = (if n < 10 then [digit_char n] else str_nat (n div 10) @ [digit_char (n mod 10)])"

declare str_nat.simps [simp del]

definition str_int :: "int \<Rightarrow> string" where
  "str_int i = (if i < 0 then CHR ''-'' # str_nat (nat (- i)) else str_nat (nat i))"

section \<open>The registry operations\<close>

text \<open>
  \<^verbatim>\<open>Download.__init__\<close> and \<^verbatim>\<open>add_download\<close>. The id is a fresh UUID, a parameter
  here. \<open>urlpath\<close> stands for the library call
  \<^verbatim>\<open>unquote(urlparse(url).path)\<close> of \<^verbatim>\<open>_extract_filename\<close>. An absent or empty
  file name is replaced (\<^verbatim>\<open>filename or self._extract_filename(url)\<close>).
\<close>

definition extract_filename :: "(string \<Rightarrow> string) \<Rightarrow> string \<Rightarrow> string" where
  "extract_filename urlpath u =
     (let b = basename (urlpath u) in if b = [] then ''download'' else b)"

definition Download_init ::
  "(string \<Rightarrow> string) \<Rightarrow> string \<Rightarrow> string \<Rightarrow> string \<Rightarrow> string option \<Rightarrow> download" where
  "Download_init urlpath new_id u dir fn =
     \<lparr>id_d = new_id, url = u, target_dir = dir,
      filename = (case fn of None \<Rightarrow> extract_filename urlpath u
                  | Some f \<Rightarrow> if f = [] then extract_filename urlpath u else f),
      size_d = -1, downloaded = 0, status = Waiting, error = None,
      privacy_mode = ''Normal'', chunks = []\<rparr>"

definition add_download ::
  "(string \<Rightarrow> string) \<Rightarrow> string \<Rightarrow> manager \<Rightarrow> string \<Rightarrow> string \<Rightarrow> string option \<Rightarrow> string
     \<Rightarrow> string \<times> manager" where
  "add_download urlpath new_id m u dir fn pm =
     (let d = (Download_init urlpath new_id u dir fn)\<lparr>privacy_mode := pm, status := Waiting\<rparr>;
          r = next_ref m;
          m1 = m\<lparr>objs := (objs m)(r := d), next_ref := Suc r,
                 downloads := (downloads m)(id_d d \<mapsto> r)\<rparr>;
          m2 = m1\<lparr>download_queue := download_queue m1 @ [id_d d]\<rparr>
      in (id_d d, emit (download_added (id_d d)) m2))"

text \<open>
  \<^verbatim>\<open>pause_download\<close>, \<^verbatim>\<open>resume_download\<close>, \<^verbatim>\<open>cancel_download\<close>: each runs
  under the registry lock and returns the Boolean result with the new state.
\<close>

definition pause_download :: "manager \<Rightarrow> string \<Rightarrow> bool \<times> manager" where
  "pause_download m i =
     (case downloads m i of
        None \<Rightarrow> (False, m)
      | Some r \<Rightarrow>
          if status (objs m r) = Downloading
          then (True, emit (download_paused i) (set_status r Paused m))
          else (False, m))"

definition resume_download :: "manager \<Rightarrow> string \<Rightarrow> bool \<times> manager" where
  "resume_download m i =
     (case downloads m i of
        None \<Rightarrow> (False, m)
      | Some r \<Rightarrow>
          if status (objs m r) = Paused
          then (let m1 = set_status r Waiting m;
                    m2 = m1\<lparr>download_queue := download_queue m1 @ [i]\<rparr>
                in (True, emit (download_resumed i) m2))
          else (False, m))"

definition cancel_download :: "manager \<Rightarrow> string \<Rightarrow> bool \<times> manager" where
  "cancel_download m i =
     (case downloads m i of
        None \<Rightarrow> (False, m)
      | Some r \<Rightarrow>
          if status (objs m r) \<in> {Downloading, Paused, Waiting}
          then (True, emit (download_canceled i) (set_status r Canceled m))
          else (False, m))"

text \<open>
  \<^verbatim>\<open>delete_download\<close>: the guard before the nested \<^verbatim>\<open>cancel_download\<close> lists
  \<^verbatim>\<open>"Downloading"\<close> and \<^verbatim>\<open>"Waiting"\<close> only; then \<^verbatim>\<open>del\<close> removes the id. The
  object stays in the store, where a worker holding the reference still sees it.
\<close>

definition delete_download :: "manager \<Rightarrow> string \<Rightarrow> bool \<times> manager" where
  "delete_download m i =
     (case downloads m i of
        None \<Rightarrow> (False, m)
      | Some r \<Rightarrow>
          (let m1 = (if status (objs m r) \<in> {Downloading, Waiting}
                     then snd (cancel_download m i) else m)
           in (True, m1\<lparr>downloads := (downloads m1)(i := None)\<rparr>)))"

definition stop_download :: "manager \<Rightarrow> string \<Rightarrow> bool \<times> manager" where
  "stop_download m i = pause_download m i"

definition clear_completed :: "manager \<Rightarrow> manager" where
  "clear_completed m =
     m\<lparr>downloads := (\<lambda>i. case downloads m i of
                            None \<Rightarrow> None
                          | Some r \<Rightarrow> if status (objs m r) = Completed then None else Some r)\<rparr>"

text \<open>\<^verbatim>\<open>get_download\<close> returns the object registered under the id, or \<^verbatim>\<open>None\<close>.\<close>

definition get_download :: "manager \<Rightarrow> string \<Rightarrow> download option" where
  "get_download m i = map_option (objs m) (downloads m i)"

section \<open>The transport selector\<close>

text \<open>
  A Python dictionary with string keys and values, in insertion order;
  \<open>dict_set\<close> is the assignment \<^verbatim>\<open>d[k] = v\<close>.
\<close>

type_synonym dict = "(string \<times> string) list"

fun dict_set :: "string \<Rightarrow> string \<Rightarrow> dict \<Rightarrow> dict" where
  "dict_set k v [] = [(k, v)]"
| "dict_set k v ((k', v') # kvs) = (if k' = k then (k, v) # kvs else (k', v') # dict_set k v kvs)"

definition dict_get :: "dict \<Rightarrow> string \<Rightarrow> string option" where
  "dict_get d k = map_of d k"

text \<open>\<^verbatim>\<open>str.lower\<close> on the ASCII letters.\<close>

definition lower_char :: "char \<Rightarrow> char" where
  "lower_char c =
     (if (65::nat) \<le> of_char c \<and> of_char c \<le> (90::nat) then char_of (of_char c + (32::nat)) else c)"

definition lower :: "string \<Rightarrow> string" where
  "lower s = map lower_char s"

text \<open>
  \<^verbatim>\<open>_get_proxies\<close> (the leading underscore of the source's private methods is dropped
  throughout). The empty dictionary makes \<^verbatim>\<open>requests\<close> connect without a proxy of
  the engine's.
\<close>

definition get_proxies :: "privacy \<Rightarrow> string \<Rightarrow> dict" where
  "get_proxies p mode =
     (if mode = ''Tor'' \<and> is_tor_enabled p then
        [(''http'', ''socks5://'' @ tor_address p @ '':'' @ str_int (tor_port p)),
         (''https'', ''socks5://'' @ tor_address p @ '':'' @ str_int (tor_port p))]
      else if mode = ''Proxy'' then
        (if proxy_type p \<noteq> ''None'' then
           (let auth = (if proxy_username p \<noteq> [] \<and> proxy_password p \<noteq> []
                        then proxy_username p @ '':'' @ proxy_password p @ ''@'' else [])
            in [(''http'', lower (proxy_type p) @ ''://'' @ auth @ proxy_address p @ '':''
                            @ str_int (proxy_port p)),
                (''https'', lower (proxy_type p) @ ''://'' @ auth @ proxy_address p @ '':''
                            @ str_int (proxy_port p))])
         else [])
      else [])"

definition browser_default_agent :: string where
  "browser_default_agent =
     ''Mozilla/5.0 (Windows NT 10.0; Win64; x64) AppleWebKit/537.36 (KHTML, like Gecko) Chrome/91.0.4472.124 Safari/537.36''"

text \<open>\<^verbatim>\<open>_get_headers\<close>.\<close>

definition get_headers :: "settings \<Rightarrow> dict" where
  "get_headers s =
     (let uat = get_setting (user_agent_type s) ''Browser default'';
          h1 = (if uat = ''Custom''
                then dict_set ''User-Agent'' (get_setting (custom_user_agent s) []) []
                else if uat = ''Browser default''
                then dict_set ''User-Agent'' browser_default_agent []
                else []);
          sr = get_setting (send_referer s) True
      in if \<not> sr then dict_set ''Referer'' [] h1 else h1)"

section \<open>The worker's two critical sections\<close>

text \<open>
  One iteration of \<^verbatim>\<open>_download_worker\<close> takes an id from the queue, runs
  \<^verbatim>\<open>_download_file\<close> outside the lock, and commits the result under the lock.
  \<open>worker_take\<close> is the first critical section: \<open>None\<close> when the queue is empty (the
  worker blocks), otherwise the reference it goes on with, if any.
\<close>

definition worker_take :: "manager \<Rightarrow> (ref option \<times> manager) option" where
  "worker_take m =
     (case download_queue m of
        [] \<Rightarrow> None
      | i # q \<Rightarrow>
          (let m1 = m\<lparr>download_queue := q\<rparr>
           in case downloads m1 i of
                None \<Rightarrow> Some (None, m1)
              | Some r \<Rightarrow>
                  if status (objs m1 r) \<in> {Canceled, Completed, Failed} then Some (None, m1)
                  else Some (Some r,
                         emit (download_started i)
                           ((set_status r Downloading m1)
                              \<lparr>active_workers := active_workers m1 + 1\<rparr>))))"

text \<open>
  What \<^verbatim>\<open>_download_file\<close> hands back: \<^verbatim>\<open>True\<close>, \<^verbatim>\<open>False\<close>, \<^verbatim>\<open>None\<close> (the
  bare \<^verbatim>\<open>return\<close> for an id that is gone), or an exception.
\<close>

datatype outcome = Returned bool | Returned_None | Raised err

definition error_or_unknown :: "err option \<Rightarrow> err" where
  "error_or_unknown e =
     (case e of None \<Rightarrow> Message ''Unknown error''
      | Some (Message t) \<Rightarrow> if t = [] then Message ''Unknown error'' else Message t
      | Some x \<Rightarrow> x)"

text \<open>
  \<open>worker_commit\<close> is the second critical section, with the decrement of
  \<^verbatim>\<open>active_workers\<close> that follows it.
\<close>

definition worker_commit :: "manager \<Rightarrow> string \<Rightarrow> outcome \<Rightarrow> manager" where
  "worker_commit m i out =
     (let m1 =
        (case downloads m i of
           None \<Rightarrow> m
         | Some r \<Rightarrow>
             (case out of
                Raised e \<Rightarrow>
                  emit (download_failed i e)
                    (m\<lparr>objs := (objs m)(r := (objs m r)\<lparr>status := Failed, error := Some e\<rparr>)\<rparr>)
              | Returned True \<Rightarrow> emit (download_completed i) (set_status r Completed m)
              | _ \<Rightarrow>
                  if status (objs m r) = Downloading
                  then emit (download_failed i (error_or_unknown (error (objs m r))))
                         (set_status r Failed m)
                  else m))
      in m1\<lparr>active_workers := active_workers m1 - 1\<rparr>)"

section \<open>The probe\<close>

text \<open>
  The headers of the HEAD response that \<^verbatim>\<open>_download_file\<close> reads (absent headers
  are \<open>None\<close>) and the URL after redirects.
\<close>

record head_response =
  content_length :: "string option"
  content_disposition :: "string option"
  accept_ranges :: "string option"
  url_h :: string

text \<open>
  \<^verbatim>\<open>str.isdigit\<close> and \<^verbatim>\<open>int\<close> on a header value, whose characters are
  Latin-1: the superscript digits (codes 178, 179 and 185) pass \<^verbatim>\<open>isdigit\<close>, and
  \<^verbatim>\<open>int\<close> raises \<^verbatim>\<open>ValueError\<close> on them. \<^verbatim>\<open>int\<close> also raises
  \<^verbatim>\<open>ValueError\<close> on a string of more than 4300 digits, the default of
  \<^verbatim>\<open>sys.set_int_max_str_digits\<close> in CPython from version 3.11 on.
\<close>

definition max_str_digits :: nat where
  "max_str_digits = 4300"

definition is_decimal :: "char \<Rightarrow> bool" where
  "is_decimal c = ((48::nat) \<le> of_char c \<and> of_char c \<le> (57::nat))"

definition isdigit :: "string \<Rightarrow> bool" where
  "isdigit s =
     (s \<noteq> [] \<and> list_all (\<lambda>c. is_decimal c \<or> of_char c \<in> {178::nat, 179, 185}) s)"

definition int_of_str :: "string \<Rightarrow> err + int" where
  "int_of_str s =
     (if s \<noteq> [] \<and> list_all is_decimal s \<and> length s \<le> max_str_digits
      then Inr (foldl (\<lambda>a c. 10 * a + int (of_char c - (48::nat))) 0 s)
      else Inl ValueError)"

text \<open>
  \<^verbatim>\<open>re.search(r'filename="?([^";]+)', s)\<close>: the group of the leftmost match.
  At a position the match needs \<^verbatim>\<open>filename=\<close>, then an optional double quote (code 34),
  then at least one character that is neither a double quote nor a semicolon; giving
  the quote back does not help, since the quote is then the character that fails.
\<close>

definition match_filename :: "string \<Rightarrow> string option" where
  "match_filename s =
     (if take 9 s = ''filename='' then
        (let rest = drop 9 s;
             rest1 = (if rest \<noteq> [] \<and> hd rest = char_of (34::nat) then tl rest else rest);
             g = takeWhile (\<lambda>c. c \<noteq> char_of (34::nat) \<and> c \<noteq> CHR '';'') rest1
         in if g = [] then None else Some g)
      else None)"

fun search_filename :: "string \<Rightarrow> string option" where
  "search_filename [] = None"
| "search_filename (c # cs) =
     (case match_filename (c # cs) of Some g \<Rightarrow> Some g | None \<Rightarrow> search_filename cs)"

text \<open>
  The part of \<^verbatim>\<open>_download_file\<close> between the HEAD request and the choice of the
  strategy: size, file name and URL of the download are updated from the response.
\<close>

definition probe :: "head_response \<Rightarrow> download \<Rightarrow> err + download" where
  "probe h d =
     (case (case content_length h of
              None \<Rightarrow> Inr d
            | Some cl \<Rightarrow>
                if cl \<noteq> [] \<and> isdigit cl
                then (case int_of_str cl of Inl e \<Rightarrow> Inl e | Inr n \<Rightarrow> Inr (d\<lparr>size_d := n\<rparr>))
                else Inr d) of
        Inl e \<Rightarrow> Inl e
      | Inr d1 \<Rightarrow>
          (let d2 = (case content_disposition h of
                       None \<Rightarrow> d1
                     | Some cd \<Rightarrow>
                         (case search_filename cd of
                            None \<Rightarrow> d1
                          | Some f \<Rightarrow> d1\<lparr>filename := f\<rparr>))
           in Inr (d2\<lparr>url := url_h h\<rparr>)))"

definition supports_range :: "head_response \<Rightarrow> bool" where
  "supports_range h = (accept_ranges h = Some ''bytes'')"

datatype strategy = Chunked | Single

text \<open>The condition of the last \<^verbatim>\<open>if\<close> of \<^verbatim>\<open>_download_file\<close>.\<close>

definition choose_strategy :: "config \<Rightarrow> head_response \<Rightarrow> download \<Rightarrow> strategy" where
  "choose_strategy c h d =
     (if supports_range h \<and> chunk_enabled c \<and> size_d d \<ge> chunk_min_size c
      then Chunked else Single)"

section \<open>The file system and the conflict policy\<close>

text \<open>
  The file system is the list of the paths that exist; a file's contents are not
  modelled. Opening for writing, moving and removing are taken to succeed.
  \<^verbatim>\<open>os.makedirs\<close> raises on the empty path, which is what
  \<^verbatim>\<open>os.path.dirname\<close> gives for a target without a directory.
\<close>

type_synonym fs = "string list"

definition path_exists :: "fs \<Rightarrow> string \<Rightarrow> bool" where
  "path_exists files p = (p \<in> set files)"

definition open_wb :: "string \<Rightarrow> fs \<Rightarrow> fs" where
  "open_wb p files = List.insert p files"

definition os_remove :: "string \<Rightarrow> fs \<Rightarrow> fs" where
  "os_remove p files = removeAll p files"

definition shutil_move :: "string \<Rightarrow> string \<Rightarrow> fs \<Rightarrow> fs" where
  "shutil_move src dst files = List.insert dst (removeAll src files)"

definition os_makedirs :: "string \<Rightarrow> fs \<Rightarrow> err + fs" where
  "os_makedirs p files = (if p = [] then Inl FileNotFoundError else Inr (List.insert p files))"

definition get_target_path :: "download \<Rightarrow> string" where
  "get_target_path d = join (target_dir d) (filename d)"

text \<open>The name \<^verbatim>\<open>f"{base} ({counter}){ext}"\<close>.\<close>

definition numbered :: "string \<Rightarrow> string \<Rightarrow> nat \<Rightarrow> string" where
  "numbered base ext counter = base @ '' ('' @ str_nat counter @ '')'' @ ext"

text \<open>
  The loop \<^verbatim>\<open>while os.path.exists(target_path)\<close> of the policy
  \<^verbatim>\<open>"Auto rename"\<close>, on its two variables. It ends because the names it tries grow
  longer than every existing path.
\<close>

function rename_loop :: "fs \<Rightarrow> string \<Rightarrow> string \<Rightarrow> string \<Rightarrow> nat \<Rightarrow> string \<times> nat" where
  "rename_loop files base ext target_path counter =
     (if path_exists files target_path
      then rename_loop files base ext (numbered base ext counter) (counter + 1)
      else (target_path, counter))"
  by pat_completeness auto
termination
proof (relation "measure (\<lambda>(files, base, ext, target_path, counter).
         if target_path \<in> set files then Suc (10 ^ sum_list (map length files) - counter) else 0)")
  show "wf (measure (\<lambda>(files, base, ext, target_path, counter).
         if target_path \<in> set files
         then Suc (10 ^ sum_list (map length files) - counter) else 0))"
    by simp
next
  fix files :: fs and base ext target_path :: string and counter :: nat
  assume ex: "path_exists files target_path"
  have bound: "n < 10 ^ length (str_nat n)" for n
  proof (induction n rule: str_nat.induct)
    case (1 n)
    show ?case
    proof (cases "n < 10")
      case True
      then show ?thesis by (simp add: str_nat.simps [of n])
    next
      case False
      with 1 have "n div 10 < 10 ^ length (str_nat (n div 10))" by simp
      then have "n < 10 * 10 ^ length (str_nat (n div 10))" by simp
      with False show ?thesis by (simp add: str_nat.simps [of n])
    qed
  qed
  have small: "counter < 10 ^ sum_list (map length files)"
    if mem: "numbered base ext counter \<in> set files"
  proof -
    have "length (str_nat counter) \<le> length (numbered base ext counter)"
      by (simp add: numbered_def)
    also have "\<dots> \<le> sum_list (map length files)"
      using mem by (simp add: member_le_sum_list)
    finally have "length (str_nat counter) \<le> sum_list (map length files)" .
    then have "(10::nat) ^ length (str_nat counter) \<le> 10 ^ sum_list (map length files)"
      by (rule power_increasing) simp
    with bound [of counter] show ?thesis by (rule less_le_trans)
  qed
  show "((files, base, ext, numbered base ext counter, counter + 1),
         (files, base, ext, target_path, counter))
        \<in> measure (\<lambda>(files, base, ext, target_path, counter).
            if target_path \<in> set files
            then Suc (10 ^ sum_list (map length files) - counter) else 0)"
    using ex small by (auto simp: path_exists_def)
qed

declare rename_loop.simps [simp del]

text \<open>
  The block \<^verbatim>\<open># Check if file exists\<close>, which \<^verbatim>\<open>_download_single\<close> and
  \<^verbatim>\<open>_download_in_chunks\<close> both start with: \<open>None\<close> is the early
  \<^verbatim>\<open>return True\<close> of \<^verbatim>\<open>"Skip download"\<close>, otherwise the target path to write and
  the download, renamed under \<^verbatim>\<open>"Auto rename"\<close>.
\<close>

definition resolve_conflict :: "config \<Rightarrow> fs \<Rightarrow> download \<Rightarrow> (string \<times> download) option" where
  "resolve_conflict c files d =
     (let target_path = get_target_path d
      in if path_exists files target_path then
           (if file_conflict c = ''Skip download'' then None
            else if file_conflict c = ''Overwrite'' then Some (target_path, d)
            else if file_conflict c = ''Auto rename'' then
              (case splitext target_path of
                 (base, ext) \<Rightarrow>
                   (let target_path1 = fst (rename_loop files base ext target_path 1)
                    in Some (target_path1, d\<lparr>filename := basename target_path1\<rparr>)))
            else Some (target_path, d))
         else Some (target_path, d))"

section \<open>The network and the other threads, as the executor meets them\<close>

text \<open>
  A streamed response is the list of what happens while the executor iterates over
  it, in order: \<open>Data n\<close> is the next item of \<^verbatim>\<open>iter_content\<close>, of \<open>n\<close> bytes;
  \<open>Err e\<close> is an exception raised by the read; \<open>Ctl c\<close> is a call of the registry
  operation \<open>c\<close> on this download by another thread, between two iterations. The end
  of the list is the end of the body. An attempt of a GET is refused (an exception
  before the part file is opened) or yields such a stream.
\<close>

datatype ctl = Pause | Resume | Cancel | Delete

datatype ev = Data nat | Ctl ctl | Err err

datatype attempt = Refused err | Stream "ev list"

definition apply_ctl :: "ctl \<Rightarrow> string \<Rightarrow> manager \<Rightarrow> manager" where
  "apply_ctl c i m =
     (case c of
        Pause \<Rightarrow> snd (pause_download m i)
      | Resume \<Rightarrow> snd (resume_download m i)
      | Cancel \<Rightarrow> snd (cancel_download m i)
      | Delete \<Rightarrow> snd (delete_download m i))"

text \<open>
  The environment of one run of \<^verbatim>\<open>_download_file\<close>: the answer to the HEAD request
  and to each GET, from the URL, the headers, the proxies and the number of the
  attempt.
\<close>

record env =
  head_req :: "string \<Rightarrow> dict \<Rightarrow> dict \<Rightarrow> err + head_response"
  get_req :: "string \<Rightarrow> dict \<Rightarrow> dict \<Rightarrow> nat \<Rightarrow> attempt"

text \<open>How the loop over a response ends: the body ended, the status check failed, or
  an exception was raised.\<close>

datatype loop_result = Exhausted | Stopped | Broke err

section \<open>The single-stream strategy\<close>

text \<open>
  The loop \<^verbatim>\<open>for chunk in response.iter_content(...)\<close> of \<^verbatim>\<open>_download_single\<close>,
  on the object at \<open>r\<close>.
\<close>

fun stream_loop :: "ev list \<Rightarrow> ref \<Rightarrow> manager \<Rightarrow> loop_result \<times> manager" where
  "stream_loop [] r m = (Exhausted, m)"
| "stream_loop (Ctl c # es) r m = stream_loop es r (apply_ctl c (id_d (objs m r)) m)"
| "stream_loop (Err e # es) r m = (Broke e, m)"
| "stream_loop (Data n # es) r m =
     (if status (objs m r) \<noteq> Downloading then (Stopped, m)
      else if n > 0 then
        (let d = objs m r;
             d1 = d\<lparr>downloaded := downloaded d + int n\<rparr>;
             m1 = m\<lparr>objs := (objs m)(r := d1)\<rparr>
         in stream_loop es r (emit (download_progress (id_d d1) (downloaded d1) (size_d d1)) m1))
      else stream_loop es r m)"

definition single_attempt ::
  "attempt \<Rightarrow> string \<Rightarrow> ref \<Rightarrow> manager \<Rightarrow> fs \<Rightarrow> loop_result \<times> manager \<times> fs" where
  "single_attempt a temp_path r m files =
     (case a of
        Refused e \<Rightarrow> (Broke e, m, files)
      | Stream es \<Rightarrow>
          (case stream_loop es r m of (res, m1) \<Rightarrow> (res, m1, open_wb temp_path files)))"

definition set_error :: "ref \<Rightarrow> err \<Rightarrow> manager \<Rightarrow> manager" where
  "set_error r e m = m\<lparr>objs := (objs m)(r := (objs m r)\<lparr>error := Some e\<rparr>)\<rparr>"

text \<open>
  The loop \<^verbatim>\<open>while retries <= self.retry_count\<close> of \<^verbatim>\<open>_download_single\<close>. The
  stubs of \<^verbatim>\<open>_post_process_download\<close> have no effect and are left out.
\<close>

function single_retries ::
  "int \<Rightarrow> (nat \<Rightarrow> attempt) \<Rightarrow> string \<Rightarrow> string \<Rightarrow> ref \<Rightarrow> int \<Rightarrow> manager \<Rightarrow> fs
     \<Rightarrow> bool \<times> manager \<times> fs" where
  "single_retries rc net temp_path target_path r retries m files =
     (if retries \<le> rc then
        (case single_attempt (net (nat retries)) temp_path r m files of
           (Stopped, m1, files1) \<Rightarrow> (False, m1, files1)
         | (Exhausted, m1, files1) \<Rightarrow> (True, m1, shutil_move temp_path target_path files1)
         | (Broke e, m1, files1) \<Rightarrow>
             if retries + 1 > rc
             then (False, set_error r e m1, os_remove temp_path files1)
             else single_retries rc net temp_path target_path r (retries + 1) m1 files1)
      else (False, m, files))"
  by pat_completeness auto
termination
  by (relation "measure (\<lambda>(rc, net, temp_path, target_path, r, retries, m, files).
        nat (rc + 1 - retries))") auto

declare single_retries.simps [simp del]

text \<open>\<^verbatim>\<open>_download_single\<close>; \<open>net\<close> answers the GET of each attempt.\<close>

definition download_single ::
  "manager \<Rightarrow> fs \<Rightarrow> ref \<Rightarrow> (nat \<Rightarrow> attempt) \<Rightarrow> outcome \<times> manager \<times> fs" where
  "download_single m files r net =
     (let d = objs m r;
          temp_path = get_target_path d @ ''.part''
      in case resolve_conflict (cfg m) files d of
           None \<Rightarrow> (Returned True, m, files)
         | Some (target_path, d1) \<Rightarrow>
             (let m1 = m\<lparr>objs := (objs m)(r := d1)\<rparr>
              in case os_makedirs (dirname target_path) files of
                   Inl e \<Rightarrow> (Raised e, m1, files)
                 | Inr files1 \<Rightarrow>
                     (case single_retries (retry_count (cfg m1)) net temp_path target_path r 0
                             m1 files1 of
                        (b, m2, files2) \<Rightarrow> (Returned b, m2, files2))))"

section \<open>The segmented strategy\<close>

text \<open>
  The loop \<^verbatim>\<open># Prepare chunks\<close> of \<^verbatim>\<open>_download_in_chunks\<close>. Python's \<^verbatim>\<open>//\<close>
  rounds down, as \<open>div\<close> on \<open>int\<close> does, and raises on a zero divisor;
  \<^verbatim>\<open>range(n)\<close> is empty for \<open>n \<le> 0\<close>, as \<open>[0..n - 1]\<close> is.
\<close>

definition make_chunk :: "int \<Rightarrow> int \<Rightarrow> string \<Rightarrow> int \<Rightarrow> chunk" where
  "make_chunk sz cnt target_path i =
     (let chunk_size = sz div cnt;
          st = i * chunk_size
      in \<lparr>start = st,
          end_c = (if i < cnt - 1 then st + chunk_size - 1 else sz - 1),
          temp_file = target_path @ ''.part'' @ str_int i,
          downloaded_c = 0, status_c = waiting, error_c = None\<rparr>)"

definition make_chunks :: "int \<Rightarrow> int \<Rightarrow> string \<Rightarrow> err + chunk list" where
  "make_chunks sz cnt target_path =
     (if cnt = 0 then Inl ZeroDivisionError
      else Inr (map (make_chunk sz cnt target_path) [0..cnt - 1]))"

definition upd_chunk :: "ref \<Rightarrow> nat \<Rightarrow> (chunk \<Rightarrow> chunk) \<Rightarrow> manager \<Rightarrow> manager" where
  "upd_chunk r k f m =
     (let d = objs m r
      in m\<lparr>objs := (objs m)(r := d\<lparr>chunks := (chunks d)[k := f (chunks d ! k)]\<rparr>)\<rparr>)"

text \<open>
  \<^verbatim>\<open>_download_chunk\<close> for the chunk at index \<open>k\<close> of \<^verbatim>\<open>download.chunks\<close>: its
  loop over the response, then its loop of attempts. When the attempts are used up
  the thread ends with the exception, which no one catches.
\<close>

fun chunk_loop :: "ev list \<Rightarrow> ref \<Rightarrow> nat \<Rightarrow> manager \<Rightarrow> loop_result \<times> manager" where
  "chunk_loop [] r k m = (Exhausted, m)"
| "chunk_loop (Ctl c # es) r k m = chunk_loop es r k (apply_ctl c (id_d (objs m r)) m)"
| "chunk_loop (Err e # es) r k m = (Broke e, m)"
| "chunk_loop (Data n # es) r k m =
     (if status (objs m r) \<noteq> Downloading then (Stopped, m)
      else if n > 0 then
        (let m1 = upd_chunk r k (\<lambda>c. c\<lparr>downloaded_c := downloaded_c c + int n\<rparr>) m;
             d = objs m1 r;
             d1 = d\<lparr>downloaded := sum_list (map downloaded_c (chunks d))\<rparr>;
             m2 = m1\<lparr>objs := (objs m1)(r := d1)\<rparr>
         in chunk_loop es r k (emit (download_progress (id_d d1) (downloaded d1) (size_d d1)) m2))
      else chunk_loop es r k m)"

definition chunk_attempt ::
  "attempt \<Rightarrow> ref \<Rightarrow> nat \<Rightarrow> manager \<Rightarrow> fs \<Rightarrow> loop_result \<times> manager \<times> fs" where
  "chunk_attempt a r k m files =
     (let m0 = upd_chunk r k (\<lambda>c. c\<lparr>status_c := downloading\<rparr>) m
      in case a of
           Refused e \<Rightarrow> (Broke e, m0, files)
         | Stream es \<Rightarrow>
             (case chunk_loop es r k m0 of
                (res, m1) \<Rightarrow> (res, m1, open_wb (temp_file (chunks (objs m0 r) ! k)) files)))"

function download_chunk ::
  "int \<Rightarrow> (nat \<Rightarrow> attempt) \<Rightarrow> ref \<Rightarrow> nat \<Rightarrow> int \<Rightarrow> manager \<Rightarrow> fs \<Rightarrow> manager \<times> fs" where
  "download_chunk rc net r k retries m files =
     (if retries \<le> rc then
        (case chunk_attempt (net (nat retries)) r k m files of
           (Stopped, m1, files1) \<Rightarrow> (m1, files1)
         | (Exhausted, m1, files1) \<Rightarrow>
             (upd_chunk r k (\<lambda>c. c\<lparr>status_c := completed\<rparr>) m1, files1)
         | (Broke e, m1, files1) \<Rightarrow>
             if retries + 1 > rc
             then (upd_chunk r k (\<lambda>c. c\<lparr>status_c := failed, error_c := Some e\<rparr>) m1, files1)
             else download_chunk rc net r k (retries + 1) m1 files1)
      else (m, files))"
  by pat_completeness auto
termination
  by (relation "measure (\<lambda>(rc, net, r, k, retries, m, files). nat (rc + 1 - retries))") auto

declare download_chunk.simps [simp del]

text \<open>
  The chunk threads. They run concurrently in the source; the model runs them one
  after the other, in index order, which is one of their schedules. The GET of a chunk
  carries its \<^verbatim>\<open>Range\<close> header.
\<close>

definition range_header :: "chunk \<Rightarrow> string" where
  "range_header c = ''bytes='' @ str_int (start c) @ ''-'' @ str_int (end_c c)"

fun chunk_threads ::
  "int \<Rightarrow> (dict \<Rightarrow> nat \<Rightarrow> attempt) \<Rightarrow> dict \<Rightarrow> ref \<Rightarrow> nat list \<Rightarrow> manager \<Rightarrow> fs
     \<Rightarrow> manager \<times> fs" where
  "chunk_threads rc net hdrs r [] m files = (m, files)"
| "chunk_threads rc net hdrs r (k # ks) m files =
     (case download_chunk rc
             (net (dict_set ''Range'' (range_header (chunks (objs m r) ! k)) hdrs)) r k 0 m files of
        (m1, files1) \<Rightarrow> chunk_threads rc net hdrs r ks m1 files1)"

text \<open>The two loops \<^verbatim>\<open># Clean up temp files\<close>.\<close>

definition cleanup :: "chunk list \<Rightarrow> fs \<Rightarrow> fs" where
  "cleanup cs files = fold (\<lambda>c. os_remove (temp_file c)) cs files"

text \<open>\<^verbatim>\<open>_download_in_chunks\<close>.\<close>

definition download_in_chunks ::
  "manager \<Rightarrow> fs \<Rightarrow> ref \<Rightarrow> (dict \<Rightarrow> nat \<Rightarrow> attempt) \<Rightarrow> dict \<Rightarrow> outcome \<times> manager \<times> fs" where
  "download_in_chunks m files r net hdrs =
     (let d = objs m r
      in case resolve_conflict (cfg m) files d of
           None \<Rightarrow> (Returned True, m, files)
         | Some (target_path, d1) \<Rightarrow>
             (let m1 = m\<lparr>objs := (objs m)(r := d1)\<rparr>
              in case os_makedirs (dirname target_path) files of
                   Inl e \<Rightarrow> (Raised e, m1, files)
                 | Inr files1 \<Rightarrow>
                     (case make_chunks (size_d d1) (chunk_count (cfg m1)) target_path of
                        Inl e \<Rightarrow> (Raised e, m1, files1)
                      | Inr cs \<Rightarrow>
                          (let m2 = m1\<lparr>objs := (objs m1)(r := (objs m1 r)\<lparr>chunks := cs\<rparr>)\<rparr>
                           in case chunk_threads (retry_count (cfg m2)) net hdrs r
                                     [0..<length cs] m2 files1 of
                                (m3, files3) \<Rightarrow>
                                  (let cs1 = chunks (objs m3 r)
                                   in if list_all (\<lambda>c. status_c c = completed) cs1
                                      then (Returned True, m3,
                                            cleanup cs1 (open_wb target_path files3))
                                      else (Returned False,
                                            set_error r (Message ''Some chunks failed to download'') m3,
                                            cleanup cs1 files3))))))"

section \<open>The executor\<close>

text \<open>
  \<^verbatim>\<open>_download_file\<close>. Its \<^verbatim>\<open>except\<close> clause records the error on the object that
  the id names at that moment, if any, and returns \<^verbatim>\<open>False\<close>.
\<close>

definition file_failed :: "string \<Rightarrow> err \<Rightarrow> manager \<Rightarrow> manager" where
  "file_failed i e m = (case downloads m i of None \<Rightarrow> m | Some r \<Rightarrow> set_error r e m)"

definition catch_exception ::
  "string \<Rightarrow> outcome \<times> manager \<times> fs \<Rightarrow> outcome \<times> manager \<times> fs" where
  "catch_exception i res =
     (case res of
        (Raised e, m, files) \<Rightarrow> (Returned False, file_failed i e m, files)
      | (out, m, files) \<Rightarrow> (out, m, files))"

definition run_strategy ::
  "env \<Rightarrow> manager \<Rightarrow> fs \<Rightarrow> ref \<Rightarrow> dict \<Rightarrow> dict \<Rightarrow> strategy \<Rightarrow> outcome \<times> manager \<times> fs" where
  "run_strategy world m files r headers proxies s =
     (case s of
        Chunked \<Rightarrow>
          download_in_chunks m files r (\<lambda>hs. get_req world (url (objs m r)) hs proxies) headers
      | Single \<Rightarrow>
          download_single m files r (get_req world (url (objs m r)) headers proxies))"

definition download_file :: "env \<Rightarrow> manager \<Rightarrow> fs \<Rightarrow> string \<Rightarrow> outcome \<times> manager \<times> fs" where
  "download_file world m files i =
     (case downloads m i of
        None \<Rightarrow> (Returned_None, m, files)
      | Some r \<Rightarrow>
          (let d = objs m r;
               proxies = get_proxies (privacy_manager m) (privacy_mode d);
               headers = get_headers (settings_manager m)
           in case head_req world (url d) headers proxies of
                Inl e \<Rightarrow> catch_exception i (Raised e, m, files)
              | Inr h \<Rightarrow>
                  (case probe h d of
                     Inl e \<Rightarrow> catch_exception i (Raised e, m, files)
                   | Inr d1 \<Rightarrow>
                       (let m1 = m\<lparr>objs := (objs m)(r := d1)\<rparr>
                        in catch_exception i
                             (run_strategy world m1 files r headers proxies
                                (choose_strategy (cfg m1) h d1))))))"

text \<open>
  One iteration of the loop of \<^verbatim>\<open>_download_worker\<close>, with the run of
  \<^verbatim>\<open>_download_file\<close> between its two critical sections: \<open>None\<close> when the queue
  is empty.
\<close>

definition download_worker :: "env \<Rightarrow> manager \<Rightarrow> fs \<Rightarrow> (manager \<times> fs) option" where
  "download_worker world m files =
     (case download_queue m of
        [] \<Rightarrow> None
      | i # q \<Rightarrow>
          (case worker_take m of
             None \<Rightarrow> None
           | Some (None, m1) \<Rightarrow> Some (m1, files)
           | Some (Some r, m1) \<Rightarrow>
               (case download_file world m1 files i of
                  (out, m2, files2) \<Rightarrow> Some (worker_commit m2 i out, files2))))"

text \<open>The transitions of the state machine that the specification allows.\<close>

definition legal_edges :: "(status \<times> status) set" where
  "legal_edges =
     {(Waiting, Downloading), (Downloading, Paused), (Paused, Waiting),
      (Downloading, Canceled), (Paused, Canceled), (Waiting, Canceled),
      (Downloading, Completed), (Downloading, Failed)}"

section \<open>Example states\<close>

text \<open>
  A manager with the default settings and one download, registered under the id
  \<open>''a''\<close> at address \<open>0\<close>, in a given status.
\<close>

definition example_config :: config where
  "example_config =
     \<lparr>chunk_enabled = True, chunk_count = 4, chunk_min_size = chunk_min_size_bytes 10,
      file_conflict = ''Auto rename'', retry_count = 3\<rparr>"

definition example_settings :: settings where
  "example_settings = \<lparr>user_agent_type = None, custom_user_agent = None, send_referer = None\<rparr>"

definition example_privacy :: privacy where
  "example_privacy =
     \<lparr>tor_enabled = False, tor_address = ''127.0.0.1'', tor_port = 9050,
      proxy_type = ''None'', proxy_address = [], proxy_port = 8080,
      proxy_username = [], proxy_password = []\<rparr>"

definition example_download :: "status \<Rightarrow> download" where
  "example_download st =
     \<lparr>id_d = ''a'', url = ''http://h/f.bin'', target_dir = ''/d'', filename = ''f.bin'',
      size_d = -1, downloaded = 0, status = st, error = None,
      privacy_mode = ''Normal'', chunks = []\<rparr>"

definition example_manager :: "status \<Rightarrow> manager" where
  "example_manager st =
     \<lparr>cfg = example_config, settings_manager = example_settings,
      privacy_manager = example_privacy,
      downloads = [''a'' \<mapsto> 0], objs = (\<lambda>_. example_download st), next_ref = 1,
      download_queue = [], active_workers = 0, signals = []\<rparr>"

text \<open>
  Claim C7 as it is worded, for comparison with \<open>delete_download\<close>: the download is
  cancelled first whenever its status is not terminal, Paused included, and then the
  id is removed.
\<close>

definition delete_cancelling_nonterminal :: "manager \<Rightarrow> string \<Rightarrow> bool \<times> manager" where
  "delete_cancelling_nonterminal m i =
     (case downloads m i of
        None \<Rightarrow> (False, m)
      | Some r \<Rightarrow>
          (let m1 = (if status (objs m r) \<in> {Downloading, Paused, Waiting}
                     then snd (cancel_download m i) else m)
           in (True, m1\<lparr>downloads := (downloads m1)(i := None)\<rparr>)))"

text \<open>
  A manager whose only download asks for the privacy mode \<^verbatim>\<open>Tor\<close> while Tor is
  not enabled, and a network that answers only requests made without a proxy: a HEAD
  response of ten bytes without range support, and a body of two items.
\<close>

definition tor_manager :: manager where
  "tor_manager =
     (example_manager Downloading)
       \<lparr>objs := (\<lambda>_. (example_download Downloading)\<lparr>privacy_mode := ''Tor''\<rparr>)\<rparr>"

definition example_head :: head_response where
  "example_head =
     \<lparr>content_length = Some ''10'', content_disposition = None, accept_ranges = None,
      url_h = ''http://h/f.bin''\<rparr>"

definition direct_only :: env where
  "direct_only =
     \<lparr>head_req = (\<lambda>u hs ps. if ps = [] then Inr example_head
                              else Inl (Message ''proxy unreachable'')),
      get_req = (\<lambda>u hs ps k. if ps = [] then Stream [Data 5, Data 5]
                               else Refused (Message ''proxy unreachable''))\<rparr>"

text \<open>
  The proxies of the mode \<^verbatim>\<open>Tor\<close>, and a network as it answers when every request
  reaches it with the given proxies, whatever proxies the request names.
\<close>

definition tor_proxies :: "privacy \<Rightarrow> dict" where
  "tor_proxies p =
     (if is_tor_enabled p
      then [(''http'', ''socks5://'' @ tor_address p @ '':'' @ str_int (tor_port p)),
            (''https'', ''socks5://'' @ tor_address p @ '':'' @ str_int (tor_port p))]
      else [])"

definition with_proxies :: "dict \<Rightarrow> env \<Rightarrow> env" where
  "with_proxies ps world =
     \<lparr>head_req = (\<lambda>u hs _. head_req world u hs ps),
      get_req = (\<lambda>u hs _ k. get_req world u hs ps k)\<rparr>"

text \<open>
  A server that supports ranges and reports twenty megabytes, which is above the
  default \<^verbatim>\<open>chunk_min_size\<close> of ten.
\<close>

definition ranged_head :: head_response where
  "ranged_head =
     \<lparr>content_length = Some ''20971520'', content_disposition = None,
      accept_ranges = Some ''bytes'', url_h = ''http://h/f.bin''\<rparr>"

definition ranged_world :: env where
  "ranged_world =
     \<lparr>head_req = (\<lambda>u hs ps. Inr ranged_head),
      get_req = (\<lambda>u hs ps k. Stream [])\<rparr>"

text \<open>
  For a file name without a separator, \<^verbatim>\<open>os.path.join\<close> puts a prefix that
  depends on the directory only in front of the name; \<open>dir_prefix\<close> names it in the
  proofs below.
\<close>

definition dir_prefix :: "string \<Rightarrow> string" where
  "dir_prefix a = (if a = [] \<or> last a = CHR ''/'' then a else a @ ''/'')"

text \<open>
  Three runs of one single-stream transfer. They start from a manager without
  downloads, add the download \<open>''a''\<close> of the
  file \<^verbatim>\<open>/d/f.bin\<close>, and let a worker take it. The server reports ten bytes and no
  range support, and sends the body in two items of five bytes.
\<close>

definition empty_manager :: manager where
  "empty_manager =
     \<lparr>cfg = example_config, settings_manager = example_settings,
      privacy_manager = example_privacy,
      downloads = Map.empty, objs = (\<lambda>_. example_download Waiting), next_ref = 0,
      download_queue = [], active_workers = 0, signals = []\<rparr>"

definition after_take :: "manager \<Rightarrow> manager" where
  "after_take m = (case worker_take m of None \<Rightarrow> m | Some (_, m1) \<Rightarrow> m1)"

definition added :: manager where
  "added =
     snd (add_download (\<lambda>u. u) ''a'' empty_manager ''http://h/f.bin'' ''/d''
            (Some ''f.bin'') ''Normal'')"

definition started :: manager where
  "started = after_take added"

definition world_of :: "ev list \<Rightarrow> env" where
  "world_of body = \<lparr>head_req = (\<lambda>u hs ps. Inr example_head), get_req = (\<lambda>u hs ps k. Stream body)\<rparr>"

text \<open>
  First run: another thread pauses the download after the first item; the worker
  commits the result; the download is resumed, taken again and downloaded in full.
\<close>

definition paused_run :: "outcome \<times> manager \<times> fs" where
  "paused_run = download_file (world_of [Data 5, Ctl Pause, Data 5]) started [] ''a''"

definition resumed :: manager where
  "resumed =
     after_take (snd (resume_download
                        (worker_commit (fst (snd paused_run)) ''a'' (fst paused_run)) ''a''))"

definition resumed_run :: "outcome \<times> manager \<times> fs" where
  "resumed_run = download_file (world_of [Data 5, Data 5]) resumed (snd (snd paused_run)) ''a''"

text \<open>
  Second run: another thread cancels the download after the last item has been
  written and before the body ends; the executor returns \<^verbatim>\<open>True\<close> and the worker
  commits it.
\<close>

definition late_cancel_run :: "outcome \<times> manager \<times> fs" where
  "late_cancel_run = download_file (world_of [Data 5, Data 5, Ctl Cancel]) started [] ''a''"

definition late_cancel_committed :: manager where
  "late_cancel_committed =
     worker_commit (fst (snd late_cancel_run)) ''a'' (fst late_cancel_run)"

text \<open>
  Third run: another thread cancels the download between the two items; the executor
  leaves at the status check.
\<close>

definition cancel_run :: "outcome \<times> manager \<times> fs" where
  "cancel_run = download_file (world_of [Data 5, Ctl Cancel, Data 5]) started [] ''a''"

text \<open>What a function reads off the chunks that \<open>make_chunks\<close> returned.\<close>

definition on_chunks :: "(chunk \<Rightarrow> 'a) \<Rightarrow> err + chunk list \<Rightarrow> 'a list" where
  "on_chunks f res = (case res of Inl _ \<Rightarrow> [] | Inr cs \<Rightarrow> map f cs)"

text \<open>The HEAD response of a server that supports ranges and reports three bytes.\<close>

definition tiny_head :: head_response where
  "tiny_head =
     \<lparr>content_length = Some ''3'', content_disposition = None,
      accept_ranges = Some ''bytes'', url_h = ''http://h/f.bin''\<rparr>"

text \<open>
  A server whose \<^verbatim>\<open>Content-Disposition\<close> header names the file
  \<^verbatim>\<open>sub/f.bin\<close> (the character of code 34 is the double quote), a target directory
  that holds \<^verbatim>\<open>sub/f.bin\<close> and \<^verbatim>\<open>f (1).bin\<close> already, and the run of the
  transfer there.
\<close>

definition subdir_head :: head_response where
  "subdir_head =
     \<lparr>content_length = Some ''10'',
      content_disposition =
        Some (''attachment; filename='' @ [char_of (34::nat)] @ ''sub/f.bin'' @ [char_of (34::nat)]),
      accept_ranges = None, url_h = ''http://h/f.bin''\<rparr>"

definition subdir_files :: fs where
  "subdir_files = [''/d/sub/f.bin'', ''/d/f (1).bin'', ''/d/sub'', ''/d'']"

definition subdir_run :: "outcome \<times> manager \<times> fs" where
  "subdir_run =
     download_file
       \<lparr>head_req = (\<lambda>u hs ps. Inr subdir_head),
        get_req = (\<lambda>u hs ps k. Stream [Data 5, Data 5])\<rparr>
       started subdir_files ''a''"

section \<open>Results of the registry operations\<close>

text \<open>
  Claim C10. \<open>pause\<close> returns true exactly for an id that is present with status
  Downloading, \<open>resume\<close> exactly for one that is present and Paused, \<open>cancel\<close>
  exactly for one that is present and Downloading, Paused or Waiting, \<open>delete\<close>
  exactly for one that is present; and an operation that returns false leaves the
  whole manager, and so the registry map and every status, as it was.
\<close>

theorem registry_results:
  "(fst (pause_download m i) \<longleftrightarrow>
      (\<exists>r. downloads m i = Some r \<and> status (objs m r) = Downloading))
   \<and> (fst (resume_download m i) \<longleftrightarrow>
      (\<exists>r. downloads m i = Some r \<and> status (objs m r) = Paused))
   \<and> (fst (cancel_download m i) \<longleftrightarrow>
      (\<exists>r. downloads m i = Some r \<and> status (objs m r) \<in> {Downloading, Paused, Waiting}))
   \<and> (fst (delete_download m i) \<longleftrightarrow> i \<in> dom (downloads m))
   \<and> (\<not> fst (pause_download m i) \<longrightarrow> snd (pause_download m i) = m)
   \<and> (\<not> fst (resume_download m i) \<longrightarrow> snd (resume_download m i) = m)
   \<and> (\<not> fst (cancel_download m i) \<longrightarrow> snd (cancel_download m i) = m)
   \<and> (\<not> fst (delete_download m i) \<longrightarrow> snd (delete_download m i) = m)"
proof -
  have p: "fst (pause_download m i) \<longleftrightarrow>
      (\<exists>r. downloads m i = Some r \<and> status (objs m r) = Downloading)"
    by (simp add: pause_download_def split: option.split)
  have r: "fst (resume_download m i) \<longleftrightarrow>
      (\<exists>r. downloads m i = Some r \<and> status (objs m r) = Paused)"
    by (simp add: resume_download_def Let_def split: option.split)
  have c: "fst (cancel_download m i) \<longleftrightarrow>
      (\<exists>r. downloads m i = Some r \<and> status (objs m r) \<in> {Downloading, Paused, Waiting})"
    by (simp add: cancel_download_def split: option.split)
  have d: "fst (delete_download m i) \<longleftrightarrow> i \<in> dom (downloads m)"
    by (auto simp: delete_download_def Let_def split: option.split)
  have p': "\<not> fst (pause_download m i) \<longrightarrow> snd (pause_download m i) = m"
    by (simp add: pause_download_def split: option.split)
  have r': "\<not> fst (resume_download m i) \<longrightarrow> snd (resume_download m i) = m"
    by (simp add: resume_download_def Let_def split: option.split)
  have c': "\<not> fst (cancel_download m i) \<longrightarrow> snd (cancel_download m i) = m"
    by (simp add: cancel_download_def split: option.split)
  have d': "\<not> fst (delete_download m i) \<longrightarrow> snd (delete_download m i) = m"
    by (simp add: delete_download_def Let_def split: option.split)
  from p r c d p' r' c' d' show ?thesis by blast
qed

theorem registry_results_witness:
  "fst (pause_download (example_manager Downloading) ''a'')
   \<and> \<not> fst (resume_download (example_manager Downloading) ''a'')
   \<and> snd (resume_download (example_manager Downloading) ''a'') = example_manager Downloading
   \<and> fst (cancel_download (example_manager Downloading) ''a'')
   \<and> fst (delete_download (example_manager Downloading) ''a'')
   \<and> \<not> fst (delete_download (example_manager Downloading) ''b'')
   \<and> snd (delete_download (example_manager Downloading) ''b'') = example_manager Downloading
   \<and> \<not> fst (pause_download (example_manager Paused) ''a'')
   \<and> snd (pause_download (example_manager Paused) ''a'') = example_manager Paused
   \<and> \<not> fst (cancel_download (example_manager Completed) ''a'')
   \<and> snd (cancel_download (example_manager Completed) ''a'') = example_manager Completed"
  using registry_results [of "example_manager Downloading" "''a''"]
    registry_results [of "example_manager Downloading" "''b''"]
    registry_results [of "example_manager Paused" "''a''"]
    registry_results [of "example_manager Completed" "''a''"]
  by (simp add: example_manager_def example_download_def)

section \<open>Deleting a download\<close>

text \<open>
  Claim C7 fails for a Paused download: \<open>delete_download\<close> removes the id and
  returns true, but the object keeps the status Paused and no
  \<^verbatim>\<open>download_canceled\<close> signal is emitted, where the claim has it cancelled.
\<close>

theorem delete_paused_counterexample:
  "downloads (example_manager Paused) ''a'' = Some 0
   \<and> status (objs (example_manager Paused) 0) = Paused
   \<and> fst (delete_download (example_manager Paused) ''a'')
   \<and> status (objs (snd (delete_download (example_manager Paused) ''a'')) 0) = Paused
   \<and> signals (snd (delete_download (example_manager Paused) ''a'')) = []
   \<and> status (objs (snd (delete_cancelling_nonterminal (example_manager Paused) ''a'')) 0) = Canceled
   \<and> delete_download (example_manager Paused) ''a''
       \<noteq> delete_cancelling_nonterminal (example_manager Paused) ''a''"
proof -
  have 1: "status (objs (snd (delete_download (example_manager Paused) ''a'')) 0) = Paused"
    by (simp add: delete_download_def example_manager_def example_download_def)
  have 2: "status (objs (snd (delete_cancelling_nonterminal (example_manager Paused) ''a'')) 0)
             = Canceled"
    by (simp add: delete_cancelling_nonterminal_def cancel_download_def set_status_def emit_def
        example_manager_def example_download_def)
  from 1 2 have 3: "delete_download (example_manager Paused) ''a''
       \<noteq> delete_cancelling_nonterminal (example_manager Paused) ''a''"
    by auto
  have 4: "downloads (example_manager Paused) ''a'' = Some 0
     \<and> status (objs (example_manager Paused) 0) = Paused
     \<and> fst (delete_download (example_manager Paused) ''a'')
     \<and> signals (snd (delete_download (example_manager Paused) ''a'')) = []"
    by (simp add: delete_download_def example_manager_def example_download_def)
  from 1 2 3 4 show ?thesis by simp
qed

text \<open>
  Claim C7, amended. For an id that is present, \<open>delete_download\<close> returns true and
  \<open>get_download\<close> on the resulting manager returns nothing for that id, the other
  ids staying as they were. The download is cancelled first exactly when its status is
  Downloading or Waiting: then the object ends with the status Canceled and the
  manager is that of \<open>cancel_download\<close> with the id removed; in every other status,
  Paused included, the manager is the given one with the id removed, the object
  untouched.
\<close>

theorem delete_download_cancels_downloading_or_waiting:
  assumes "downloads m i = Some r"
  shows "fst (delete_download m i)
    \<and> get_download (snd (delete_download m i)) i = None
    \<and> (\<forall>j. j \<noteq> i \<longrightarrow> downloads (snd (delete_download m i)) j = downloads m j)
    \<and> (status (objs m r) \<in> {Downloading, Waiting} \<longrightarrow>
          snd (delete_download m i) = (snd (cancel_download m i))\<lparr>downloads := (downloads m)(i := None)\<rparr>
          \<and> status (objs (snd (delete_download m i)) r) = Canceled
          \<and> signals (snd (delete_download m i)) = signals m @ [download_canceled i])
    \<and> (status (objs m r) \<notin> {Downloading, Waiting} \<longrightarrow>
          snd (delete_download m i) = m\<lparr>downloads := (downloads m)(i := None)\<rparr>)"
proof -
  have a: "fst (delete_download m i)"
    using assms by (simp add: delete_download_def Let_def)
  have b: "get_download (snd (delete_download m i)) i = None"
    using assms by (simp add: delete_download_def get_download_def Let_def)
  have c: "\<forall>j. j \<noteq> i \<longrightarrow> downloads (snd (delete_download m i)) j = downloads m j"
    using assms
    by (simp add: delete_download_def cancel_download_def set_status_def emit_def Let_def)
  have d: "status (objs m r) \<in> {Downloading, Waiting} \<longrightarrow>
          snd (delete_download m i) = (snd (cancel_download m i))\<lparr>downloads := (downloads m)(i := None)\<rparr>
          \<and> status (objs (snd (delete_download m i)) r) = Canceled
          \<and> signals (snd (delete_download m i)) = signals m @ [download_canceled i]"
    using assms
    by (auto simp: delete_download_def cancel_download_def set_status_def emit_def Let_def)
  have e: "status (objs m r) \<notin> {Downloading, Waiting} \<longrightarrow>
          snd (delete_download m i) = m\<lparr>downloads := (downloads m)(i := None)\<rparr>"
    using assms by (simp add: delete_download_def Let_def)
  from a b c d e show ?thesis by blast
qed

theorem delete_download_cancels_downloading_or_waiting_witness:
  "fst (delete_download (example_manager Downloading) ''a'')
   \<and> get_download (snd (delete_download (example_manager Downloading) ''a'')) ''a'' = None
   \<and> status (objs (snd (delete_download (example_manager Downloading) ''a'')) 0) = Canceled
   \<and> signals (snd (delete_download (example_manager Downloading) ''a'')) = [download_canceled ''a'']
   \<and> snd (delete_download (example_manager Paused) ''a'')
       = (example_manager Paused)\<lparr>downloads := Map.empty\<rparr>"
proof -
  have d: "downloads (example_manager Downloading) ''a'' = Some 0"
    by (simp add: example_manager_def)
  have p: "downloads (example_manager Paused) ''a'' = Some 0"
    by (simp add: example_manager_def)
  have sd: "status (objs (example_manager Downloading) 0) \<in> {Downloading, Waiting}"
    by (simp add: example_manager_def example_download_def)
  have sp: "status (objs (example_manager Paused) 0) \<notin> {Downloading, Waiting}"
    by (simp add: example_manager_def example_download_def)
  have g: "signals (example_manager Downloading) = []"
    by (simp add: example_manager_def)
  have e: "(downloads (example_manager Paused))(''a'' := None) = Map.empty"
    by (simp add: example_manager_def)
  from delete_download_cancels_downloading_or_waiting [OF d] sd g
  have 1: "fst (delete_download (example_manager Downloading) ''a'')
    \<and> get_download (snd (delete_download (example_manager Downloading) ''a'')) ''a'' = None
    \<and> status (objs (snd (delete_download (example_manager Downloading) ''a'')) 0) = Canceled
    \<and> signals (snd (delete_download (example_manager Downloading) ''a'')) = [download_canceled ''a'']"
    by auto
  from delete_download_cancels_downloading_or_waiting [OF p] sp e
  have 2: "snd (delete_download (example_manager Paused) ''a'')
       = (example_manager Paused)\<lparr>downloads := Map.empty\<rparr>"
    by auto
  from 1 2 show ?thesis by simp
qed

section \<open>Request headers\<close>

text \<open>
  Claim C9 fails in its second half: with \<^verbatim>\<open>send_referer\<close> false the header map
  holds a \<^verbatim>\<open>Referer\<close> entry, with the empty string as its value, and with
  \<^verbatim>\<open>send_referer\<close> true (or unset) it holds none; so the entry is absent exactly
  when the claim has it present.
\<close>

theorem referer_counterexample:
  "dict_get (get_headers (example_settings\<lparr>send_referer := Some False\<rparr>)) ''Referer'' = Some []
   \<and> dict_get (get_headers (example_settings\<lparr>send_referer := Some True\<rparr>)) ''Referer'' = None"
  by (simp add: get_headers_def get_setting_def dict_get_def example_settings_def
      browser_default_agent_def)

text \<open>
  Claim C9, amended. The header map has the fixed browser string as
  \<^verbatim>\<open>User-Agent\<close> when \<^verbatim>\<open>user_agent_type\<close> is \<^verbatim>\<open>Browser default\<close> (also when the
  setting is absent), the configured \<^verbatim>\<open>custom_user_agent\<close> (the empty string when
  that is absent) when it is \<^verbatim>\<open>Custom\<close>, and no \<^verbatim>\<open>User-Agent\<close> otherwise; and
  it has a \<^verbatim>\<open>Referer\<close> entry, whose value is the empty string, if and only if
  \<^verbatim>\<open>send_referer\<close> is false.
\<close>

theorem get_headers_entries:
  "dict_get (get_headers s) ''User-Agent'' =
     (if get_setting (user_agent_type s) ''Browser default'' = ''Custom''
      then Some (get_setting (custom_user_agent s) [])
      else if get_setting (user_agent_type s) ''Browser default'' = ''Browser default''
      then Some browser_default_agent
      else None)
   \<and> dict_get (get_headers s) ''Referer'' =
     (if get_setting (send_referer s) True then None else Some [])"
  by (simp add: get_headers_def dict_get_def Let_def)

section \<open>Proxies of the Tor mode\<close>

text \<open>
  Claim C6 fails: with the mode \<^verbatim>\<open>Tor\<close> and Tor not enabled, \<open>get_proxies\<close>
  returns the empty dictionary and raises nothing, and \<open>download_file\<close> goes on and
  completes the transfer over the connection without a proxy.
\<close>

theorem tor_disabled_counterexample:
  "privacy_mode (objs tor_manager 0) = ''Tor''
   \<and> \<not> is_tor_enabled (privacy_manager tor_manager)
   \<and> get_proxies (privacy_manager tor_manager) ''Tor'' = []
   \<and> fst (download_file direct_only tor_manager [] ''a'') = Returned True
   \<and> snd (snd (download_file direct_only tor_manager [] ''a'')) = [''/d/f.bin'', ''/d'']"
  by code_simp

text \<open>
  Claim C6, amended. For a download whose mode is \<^verbatim>\<open>Tor\<close>, \<open>get_proxies\<close> returns
  the SOCKS5 proxy at the configured Tor address and port for both schemes when the
  privacy provider reports Tor enabled, and the empty dictionary when it does not; no
  error is raised in either case, and \<open>download_file\<close> makes every request of the run
  with these proxies, so with none when Tor is not enabled.
\<close>

theorem tor_mode_requests:
  assumes "downloads m i = Some r" and "privacy_mode (objs m r) = ''Tor''"
  shows "get_proxies (privacy_manager m) (privacy_mode (objs m r)) = tor_proxies (privacy_manager m)
    \<and> (\<not> is_tor_enabled (privacy_manager m) \<longrightarrow> tor_proxies (privacy_manager m) = [])
    \<and> download_file world m files i
        = download_file (with_proxies (tor_proxies (privacy_manager m)) world) m files i"
proof -
  have p: "get_proxies (privacy_manager m) (privacy_mode (objs m r)) = tor_proxies (privacy_manager m)"
    using assms(2) by (simp add: get_proxies_def tor_proxies_def)
  have e: "\<not> is_tor_enabled (privacy_manager m) \<longrightarrow> tor_proxies (privacy_manager m) = []"
    by (simp add: tor_proxies_def)
  have d: "download_file world m files i
        = download_file (with_proxies (tor_proxies (privacy_manager m)) world) m files i"
    using assms(1) p
    by (simp add: download_file_def run_strategy_def with_proxies_def Let_def
        split: sum.split strategy.split)
  from p e d show ?thesis by blast
qed

theorem tor_mode_requests_witness:
  "get_proxies (privacy_manager tor_manager) (privacy_mode (objs tor_manager 0)) = []
   \<and> download_file direct_only tor_manager [] ''a''
       = download_file (with_proxies [] direct_only) tor_manager [] ''a''"
proof -
  have a: "downloads tor_manager ''a'' = Some 0"
    by (simp add: tor_manager_def example_manager_def)
  have b: "privacy_mode (objs tor_manager 0) = ''Tor''"
    by (simp add: tor_manager_def)
  have c: "\<not> is_tor_enabled (privacy_manager tor_manager)"
    by (simp add: tor_manager_def example_manager_def example_privacy_def is_tor_enabled_def)
  from tor_mode_requests [OF a b, of direct_only "[]"] c
  have t: "tor_proxies (privacy_manager tor_manager) = []" by blast
  from tor_mode_requests [OF a b, of direct_only "[]"] t show ?thesis by simp
qed

section \<open>Choice of the strategy\<close>

text \<open>
  Claim C4. When the HEAD request is answered and the probe succeeds,
  \<open>download_file\<close> runs the segmented strategy if and only if the response has
  \<^verbatim>\<open>Accept-Ranges: bytes\<close>, \<^verbatim>\<open>chunk_enabled\<close> is set and the size after the probe
  is at least \<^verbatim>\<open>chunk_min_size\<close> (in bytes); in every other case it runs the
  single-stream strategy.
\<close>

theorem strategy_choice:
  assumes "downloads m i = Some r"
    and "head_req world (url (objs m r)) (get_headers (settings_manager m))
           (get_proxies (privacy_manager m) (privacy_mode (objs m r))) = Inr h"
    and "probe h (objs m r) = Inr d1"
  shows "(choose_strategy (cfg m) h d1 = Chunked \<longleftrightarrow>
            accept_ranges h = Some ''bytes'' \<and> chunk_enabled (cfg m)
            \<and> chunk_min_size (cfg m) \<le> size_d d1)
    \<and> (choose_strategy (cfg m) h d1 = Single \<longleftrightarrow>
            \<not> (accept_ranges h = Some ''bytes'' \<and> chunk_enabled (cfg m)
               \<and> chunk_min_size (cfg m) \<le> size_d d1))
    \<and> download_file world m files i =
        catch_exception i
          (case choose_strategy (cfg m) h d1 of
             Chunked \<Rightarrow>
               download_in_chunks (m\<lparr>objs := (objs m)(r := d1)\<rparr>) files r
                 (\<lambda>hs. get_req world (url d1) hs
                    (get_proxies (privacy_manager m) (privacy_mode (objs m r))))
                 (get_headers (settings_manager m))
           | Single \<Rightarrow>
               download_single (m\<lparr>objs := (objs m)(r := d1)\<rparr>) files r
                 (get_req world (url d1) (get_headers (settings_manager m))
                    (get_proxies (privacy_manager m) (privacy_mode (objs m r)))))"
proof -
  have 1: "choose_strategy (cfg m) h d1 = Chunked \<longleftrightarrow>
            accept_ranges h = Some ''bytes'' \<and> chunk_enabled (cfg m)
            \<and> chunk_min_size (cfg m) \<le> size_d d1"
    by (simp add: choose_strategy_def supports_range_def)
  have 2: "choose_strategy (cfg m) h d1 = Single \<longleftrightarrow>
            \<not> (accept_ranges h = Some ''bytes'' \<and> chunk_enabled (cfg m)
               \<and> chunk_min_size (cfg m) \<le> size_d d1)"
    by (simp add: choose_strategy_def supports_range_def)
  have 3: "download_file world m files i =
        catch_exception i
          (case choose_strategy (cfg m) h d1 of
             Chunked \<Rightarrow>
               download_in_chunks (m\<lparr>objs := (objs m)(r := d1)\<rparr>) files r
                 (\<lambda>hs. get_req world (url d1) hs
                    (get_proxies (privacy_manager m) (privacy_mode (objs m r))))
                 (get_headers (settings_manager m))
           | Single \<Rightarrow>
               download_single (m\<lparr>objs := (objs m)(r := d1)\<rparr>) files r
                 (get_req world (url d1) (get_headers (settings_manager m))
                    (get_proxies (privacy_manager m) (privacy_mode (objs m r)))))"
    using assms by (simp add: download_file_def run_strategy_def Let_def split: strategy.split)
  from 1 2 3 show ?thesis by blast
qed

theorem strategy_choice_witness:
  "choose_strategy (cfg (example_manager Downloading)) ranged_head
      ((example_download Downloading)\<lparr>size_d := 20971520\<rparr>) = Chunked
   \<and> choose_strategy (cfg (example_manager Downloading)) example_head
      ((example_download Downloading)\<lparr>size_d := 10\<rparr>) = Single"
proof -
  have a: "downloads (example_manager Downloading) ''a'' = Some 0"
    by (simp add: example_manager_def)
  have b: "head_req ranged_world (url (objs (example_manager Downloading) 0))
             (get_headers (settings_manager (example_manager Downloading)))
             (get_proxies (privacy_manager (example_manager Downloading))
                (privacy_mode (objs (example_manager Downloading) 0))) = Inr ranged_head"
    by (simp add: ranged_world_def)
  have c: "probe ranged_head (objs (example_manager Downloading) 0)
             = Inr ((example_download Downloading)\<lparr>size_d := 20971520\<rparr>)"
    by code_simp
  have b': "head_req direct_only (url (objs (example_manager Downloading) 0))
             (get_headers (settings_manager (example_manager Downloading)))
             (get_proxies (privacy_manager (example_manager Downloading))
                (privacy_mode (objs (example_manager Downloading) 0))) = Inr example_head"
    by code_simp
  have c': "probe example_head (objs (example_manager Downloading) 0)
             = Inr ((example_download Downloading)\<lparr>size_d := 10\<rparr>)"
    by code_simp
  have v: "accept_ranges ranged_head = Some ''bytes''
      \<and> chunk_enabled (cfg (example_manager Downloading))
      \<and> chunk_min_size (cfg (example_manager Downloading)) \<le> 20971520"
    by (simp add: ranged_head_def example_manager_def example_config_def chunk_min_size_bytes_def)
  have v': "accept_ranges example_head \<noteq> Some ''bytes''"
    by (simp add: example_head_def)
  from strategy_choice [OF a b c] v
  have 1: "choose_strategy (cfg (example_manager Downloading)) ranged_head
      ((example_download Downloading)\<lparr>size_d := 20971520\<rparr>) = Chunked"
    by simp
  from strategy_choice [OF a b' c'] v'
  have 2: "choose_strategy (cfg (example_manager Downloading)) example_head
      ((example_download Downloading)\<lparr>size_d := 10\<rparr>) = Single"
    by simp
  from 1 2 show ?thesis by simp
qed

section \<open>The byte ranges of the segments\<close>

lemma make_chunks_nth:
  assumes "0 < cnt" and "k < nat cnt"
  shows "map (make_chunk sz cnt tp) [0..cnt - 1] ! k = make_chunk sz cnt tp (int k)"
proof -
  have "k < length [0..cnt - 1]" using assms by simp
  moreover have "[0..cnt - 1] ! k = int k"
    using assms by (simp add: nth_upto)
  ultimately show ?thesis by simp
qed

lemma div_times_le:
  fixes sz cnt :: int
  assumes "0 < cnt"
  shows "cnt * (sz div cnt) \<le> sz"
proof -
  have "sz = cnt * (sz div cnt) + sz mod cnt" by simp
  moreover have "0 \<le> sz mod cnt" using assms by simp
  ultimately show ?thesis by linarith
qed

lemma range_start:
  "start (make_chunk sz cnt tp i) = i * (sz div cnt)"
  by (simp add: make_chunk_def Let_def)

lemma range_end:
  "end_c (make_chunk sz cnt tp i) =
     (if i < cnt - 1 then i * (sz div cnt) + sz div cnt - 1 else sz - 1)"
  by (simp add: make_chunk_def Let_def)

lemma inner_range_below_last:
  fixes sz cnt i :: int
  assumes "0 < sz" "0 < cnt" "0 \<le> i" "i < cnt - 1"
  shows "i * (sz div cnt) + sz div cnt \<le> (cnt - 1) * (sz div cnt)"
    and "(cnt - 1) * (sz div cnt) \<le> sz"
proof -
  have q: "0 \<le> sz div cnt" using assms by (simp add: pos_imp_zdiv_nonneg_iff)
  have "(i + 1) * (sz div cnt) \<le> (cnt - 1) * (sz div cnt)"
    using assms q by (intro mult_right_mono) auto
  then show "i * (sz div cnt) + sz div cnt \<le> (cnt - 1) * (sz div cnt)"
    by (simp add: algebra_simps)
  have "(cnt - 1) * (sz div cnt) \<le> cnt * (sz div cnt)"
    using q by (intro mult_right_mono) auto
  with div_times_le [OF assms(2), of sz] show "(cnt - 1) * (sz div cnt) \<le> sz" by linarith
qed

lemma ranges_ordered:
  fixes sz cnt :: int
  assumes "0 < sz" "0 < cnt" "j < k" "k < nat cnt"
  shows "end_c (make_chunk sz cnt tp (int j)) < start (make_chunk sz cnt tp (int k))"
proof -
  have q: "0 \<le> sz div cnt" using assms by (simp add: pos_imp_zdiv_nonneg_iff)
  have j: "int j < cnt - 1" using assms by linarith
  have "(int j + 1) * (sz div cnt) \<le> int k * (sz div cnt)"
    using assms q by (intro mult_right_mono) auto
  then have "int j * (sz div cnt) + sz div cnt - 1 < int k * (sz div cnt)"
    by (simp add: algebra_simps)
  with j show ?thesis by (simp add: range_start range_end)
qed

lemma range_within:
  fixes sz cnt :: int
  assumes "0 < sz" "0 < cnt" "k < nat cnt"
  shows "0 \<le> start (make_chunk sz cnt tp (int k))"
    and "end_c (make_chunk sz cnt tp (int k)) \<le> sz - 1"
    and "start (make_chunk sz cnt tp (int k)) \<le> end_c (make_chunk sz cnt tp (int k)) + 1"
proof -
  have q: "0 \<le> sz div cnt" using assms by (simp add: pos_imp_zdiv_nonneg_iff)
  show "0 \<le> start (make_chunk sz cnt tp (int k))"
    using q by (simp add: range_start)
  show "end_c (make_chunk sz cnt tp (int k)) \<le> sz - 1"
  proof (cases "int k < cnt - 1")
    case True
    from inner_range_below_last [OF assms(1,2) _ True]
    show ?thesis using True by (simp add: range_end)
  next
    case False
    then show ?thesis by (simp add: range_end)
  qed
  show "start (make_chunk sz cnt tp (int k)) \<le> end_c (make_chunk sz cnt tp (int k)) + 1"
  proof (cases "int k < cnt - 1")
    case True
    then show ?thesis using q by (simp add: range_start range_end)
  next
    case False
    with assms have "int k = cnt - 1" by linarith
    moreover have "(cnt - 1) * (sz div cnt) \<le> sz"
    proof -
      have "(cnt - 1) * (sz div cnt) \<le> cnt * (sz div cnt)"
        using q by (intro mult_right_mono) auto
      with div_times_le [OF assms(2), of sz] show ?thesis by linarith
    qed
    ultimately show ?thesis by (simp add: range_start range_end)
  qed
qed

lemma byte_in_some_range:
  fixes sz cnt x :: int
  assumes "0 < sz" "0 < cnt" "0 \<le> x" "x \<le> sz - 1"
  shows "\<exists>k < nat cnt. start (make_chunk sz cnt tp (int k)) \<le> x
           \<and> x \<le> end_c (make_chunk sz cnt tp (int k))"
proof (cases "(cnt - 1) * (sz div cnt) \<le> x")
  case True
  let ?k = "nat (cnt - 1)"
  have "?k < nat cnt" using assms by simp
  moreover have "int ?k = cnt - 1" using assms by simp
  ultimately show ?thesis using True assms
    by (intro exI [of _ ?k]) (simp add: range_start range_end)
next
  case False
  define q where "q = sz div cnt"
  have q0: "0 \<le> q" using assms by (simp add: q_def pos_imp_zdiv_nonneg_iff)
  from False have lt: "x < (cnt - 1) * q" by (simp add: q_def)
  have qpos: "0 < q"
  proof (rule ccontr)
    assume "\<not> 0 < q"
    with q0 have "q = 0" by simp
    with lt assms show False by simp
  qed
  let ?k = "nat (x div q)"
  have d0: "0 \<le> x div q" using assms qpos by (simp add: pos_imp_zdiv_nonneg_iff)
  have lo: "q * (x div q) \<le> x" using div_times_le [OF qpos, of x] .
  have hi: "x < q * (x div q) + q"
  proof -
    have "x = q * (x div q) + x mod q" by simp
    moreover have "x mod q < q" using qpos by simp
    ultimately show ?thesis by linarith
  qed
  have "q * (x div q) < q * (cnt - 1)" using lo lt by (simp add: mult.commute)
  then have dk: "x div q < cnt - 1" using qpos by (simp add: mult_less_cancel_left_pos)
  have k1: "?k < nat cnt" using d0 dk by linarith
  have "start (make_chunk sz cnt tp (int ?k)) \<le> x"
    using lo d0 by (simp add: range_start q_def [symmetric] mult.commute)
  moreover have "x \<le> end_c (make_chunk sz cnt tp (int ?k))"
    using hi dk d0 by (simp add: range_end q_def [symmetric] mult.commute)
  ultimately show ?thesis using k1 by blast
qed

lemma range_nonempty:
  fixes sz cnt :: int
  assumes "0 < cnt" "cnt \<le> sz" "k < nat cnt"
  shows "start (make_chunk sz cnt tp (int k)) \<le> end_c (make_chunk sz cnt tp (int k))"
proof -
  have q: "1 \<le> sz div cnt"
    using assms(1,2) pos_imp_zdiv_pos_iff [of cnt sz] by simp
  show ?thesis
  proof (cases "int k < cnt - 1")
    case True
    then show ?thesis using q by (simp add: range_start range_end)
  next
    case False
    with assms have k: "int k = cnt - 1" by linarith
    have "(cnt - 1) * (sz div cnt) = cnt * (sz div cnt) - sz div cnt"
      by (simp add: algebra_simps)
    with div_times_le [OF assms(1), of sz] q have "(cnt - 1) * (sz div cnt) \<le> sz - 1"
      by linarith
    then show ?thesis by (simp add: range_start range_end k)
  qed
qed

text \<open>
  For a size and a chunk count that are both positive, \<open>make_chunks\<close> returns
  \<open>chunk_count\<close> ranges, in index order; the first starts at byte \<open>0\<close>, each next one
  starts right after the end of the one before, and the last ends at \<open>size - 1\<close>;
  every range but the last holds \<open>size div chunk_count\<close> bytes; as sets of bytes the
  ranges are pairwise disjoint and their union is \<open>{0..size - 1}\<close>. A range may be
  empty here, its end one less than its start.
\<close>

lemma chunk_ranges_contiguous:
  fixes sz cnt :: int and tp :: string
  assumes "0 < sz" and "0 < cnt"
  defines "cs \<equiv> map (make_chunk sz cnt tp) [0..cnt - 1]"
  shows "make_chunks sz cnt tp = Inr cs"
    and "int (length cs) = cnt"
    and "start (cs ! 0) = 0"
    and "end_c (cs ! (length cs - 1)) = sz - 1"
    and "\<forall>k. Suc k < length cs \<longrightarrow>
            start (cs ! Suc k) = end_c (cs ! k) + 1
            \<and> end_c (cs ! k) - start (cs ! k) + 1 = sz div cnt"
    and "\<forall>k. k < length cs \<longrightarrow> start (cs ! k) \<le> end_c (cs ! k) + 1"
    and "(\<Union>k \<in> {..<length cs}. {start (cs ! k)..end_c (cs ! k)}) = {0..sz - 1}"
    and "\<forall>j k. j < k \<and> k < length cs \<longrightarrow>
            {start (cs ! j)..end_c (cs ! j)} \<inter> {start (cs ! k)..end_c (cs ! k)} = {}"
proof -
  show mk: "make_chunks sz cnt tp = Inr cs"
    using assms(1,2) by (simp add: make_chunks_def cs_def)
  have len: "length cs = nat cnt"
    using assms(1,2) by (simp add: cs_def)
  have nth: "cs ! k = make_chunk sz cnt tp (int k)" if "k < nat cnt" for k
    using make_chunks_nth [OF assms(2) that] by (simp add: cs_def)
  show "int (length cs) = cnt" using len assms(2) by simp
  show "start (cs ! 0) = 0"
    using assms(2) by (simp add: nth range_start)
  show "end_c (cs ! (length cs - 1)) = sz - 1"
  proof -
    have "nat cnt - 1 < nat cnt" using assms(2) by simp
    moreover have "\<not> int (nat cnt - 1) < cnt - 1" using assms(2) by simp
    ultimately show ?thesis by (simp add: len nth range_end)
  qed
  show "\<forall>k. Suc k < length cs \<longrightarrow>
            start (cs ! Suc k) = end_c (cs ! k) + 1
            \<and> end_c (cs ! k) - start (cs ! k) + 1 = sz div cnt"
  proof (intro allI impI)
    fix k assume "Suc k < length cs"
    with len have a: "Suc k < nat cnt" and b: "k < nat cnt" by simp_all
    from a have c: "int k < cnt - 1" by linarith
    show "start (cs ! Suc k) = end_c (cs ! k) + 1
      \<and> end_c (cs ! k) - start (cs ! k) + 1 = sz div cnt"
      using c by (simp add: nth [OF a] nth [OF b] range_start range_end algebra_simps)
  qed
  show "\<forall>k. k < length cs \<longrightarrow> start (cs ! k) \<le> end_c (cs ! k) + 1"
    using len range_within(3) [OF assms(1,2), of _ tp] by (simp add: nth)
  show "(\<Union>k \<in> {..<length cs}. {start (cs ! k)..end_c (cs ! k)}) = {0..sz - 1}"
  proof (rule set_eqI)
    fix x
    show "x \<in> (\<Union>k \<in> {..<length cs}. {start (cs ! k)..end_c (cs ! k)}) \<longleftrightarrow> x \<in> {0..sz - 1}"
    proof
      assume "x \<in> (\<Union>k \<in> {..<length cs}. {start (cs ! k)..end_c (cs ! k)})"
      then obtain k where k: "k < nat cnt" and x: "start (cs ! k) \<le> x" "x \<le> end_c (cs ! k)"
        using len by auto
      from range_within(1,2) [OF assms(1,2) k, of tp] x k show "x \<in> {0..sz - 1}"
        by (simp add: nth)
    next
      assume "x \<in> {0..sz - 1}"
      then have "0 \<le> x" "x \<le> sz - 1" by simp_all
      from byte_in_some_range [OF assms(1,2) this, of tp]
      obtain k where "k < nat cnt" "start (make_chunk sz cnt tp (int k)) \<le> x"
        "x \<le> end_c (make_chunk sz cnt tp (int k))" by blast
      then show "x \<in> (\<Union>k \<in> {..<length cs}. {start (cs ! k)..end_c (cs ! k)})"
        using len by (auto simp: nth intro!: bexI [of _ k])
    qed
  qed
  show "\<forall>j k. j < k \<and> k < length cs \<longrightarrow>
            {start (cs ! j)..end_c (cs ! j)} \<inter> {start (cs ! k)..end_c (cs ! k)} = {}"
  proof (intro allI impI)
    fix j k assume "j < k \<and> k < length cs"
    with len have jk: "j < k" and k: "k < nat cnt" and j: "j < nat cnt" by simp_all
    from ranges_ordered [OF assms(1,2) jk k, of tp]
    show "{start (cs ! j)..end_c (cs ! j)} \<inter> {start (cs ! k)..end_c (cs ! k)} = {}"
      by (auto simp: nth [OF j] nth [OF k])
  qed
qed

text \<open>
  Claim C5 fails for a size below the chunk count, which its conditions allow: for
  three bytes and four chunks \<open>make_chunks\<close> gives the range from \<open>0\<close> to \<open>-1\<close>
  three times, which is no byte range that is inclusive on both ends, and then the
  range from \<open>0\<close> to \<open>2\<close>; the \<^verbatim>\<open>Range\<close> header of the first is
  \<^verbatim>\<open>bytes=0--1\<close>. With \<^verbatim>\<open>chunk_min_size\<close> set to \<open>0\<close>, the probe of such a
  transfer gives the size \<open>3\<close> and the segmented strategy is chosen.
\<close>

theorem chunk_ranges_empty_counterexample:
  "on_chunks (\<lambda>c. (start c, end_c c)) (make_chunks 3 4 ''/d/f.bin'')
     = [(0, -1), (0, -1), (0, -1), (0, 2)]
   \<and> \<not> list_all (\<lambda>c. start c \<le> end_c c) (on_chunks (\<lambda>c. c) (make_chunks 3 4 ''/d/f.bin''))
   \<and> on_chunks range_header (make_chunks 3 4 ''/d/f.bin'')
       = [''bytes=0--1'', ''bytes=0--1'', ''bytes=0--1'', ''bytes=0-2'']
   \<and> (case probe tiny_head (objs started 0) of
          Inl _ \<Rightarrow> None
        | Inr d \<Rightarrow> Some (size_d d, choose_strategy (example_config\<lparr>chunk_min_size := 0\<rparr>) tiny_head d))
       = Some (3, Chunked)"
  by code_simp

text \<open>
  Claim C5, amended. For a chunk count that is positive and a size that is at least
  the chunk count, \<open>make_chunks\<close> returns \<open>chunk_count\<close> ranges, in index order, each
  with its start at most its end; the first starts at byte \<open>0\<close>, each next one starts
  right after the end of the one before, and the last ends at \<open>size - 1\<close>; every range
  but the last holds \<open>size div chunk_count\<close> bytes; as sets of bytes, inclusive on
  both ends, the ranges are pairwise disjoint and their union is \<open>{0..size - 1}\<close>.
\<close>

theorem chunk_ranges_partition_nonempty:
  assumes "0 < cnt" and "cnt \<le> sz"
  shows "\<exists>cs. make_chunks sz cnt tp = Inr cs
      \<and> int (length cs) = cnt
      \<and> start (cs ! 0) = 0
      \<and> end_c (cs ! (length cs - 1)) = sz - 1
      \<and> (\<forall>k. Suc k < length cs \<longrightarrow>
            start (cs ! Suc k) = end_c (cs ! k) + 1
            \<and> end_c (cs ! k) - start (cs ! k) + 1 = sz div cnt)
      \<and> (\<forall>k. k < length cs \<longrightarrow> start (cs ! k) \<le> end_c (cs ! k))
      \<and> (\<Union>k \<in> {..<length cs}. {start (cs ! k)..end_c (cs ! k)}) = {0..sz - 1}
      \<and> (\<forall>j k. j < k \<and> k < length cs \<longrightarrow>
            {start (cs ! j)..end_c (cs ! j)} \<inter> {start (cs ! k)..end_c (cs ! k)} = {})"
proof -
  have pos: "0 < sz" using assms by simp
  define cs where "cs = map (make_chunk sz cnt tp) [0..cnt - 1]"
  note facts = chunk_ranges_contiguous [OF pos assms(1), of tp, folded cs_def]
  have nonempty: "\<forall>k. k < length cs \<longrightarrow> start (cs ! k) \<le> end_c (cs ! k)"
  proof (intro allI impI)
    fix k assume "k < length cs"
    with facts(2) have k: "k < nat cnt" by simp
    from make_chunks_nth [OF assms(1) k, of sz tp]
    have "cs ! k = make_chunk sz cnt tp (int k)" by (simp add: cs_def)
    with range_nonempty [OF assms k, of tp] show "start (cs ! k) \<le> end_c (cs ! k)" by simp
  qed
  show ?thesis
  proof (intro exI [of _ cs] conjI)
    show "make_chunks sz cnt tp = Inr cs" by (rule facts(1))
    show "int (length cs) = cnt" by (rule facts(2))
    show "start (cs ! 0) = 0" by (rule facts(3))
    show "end_c (cs ! (length cs - 1)) = sz - 1" by (rule facts(4))
    show "\<forall>k. Suc k < length cs \<longrightarrow>
            start (cs ! Suc k) = end_c (cs ! k) + 1
            \<and> end_c (cs ! k) - start (cs ! k) + 1 = sz div cnt" by (rule facts(5))
    show "\<forall>k. k < length cs \<longrightarrow> start (cs ! k) \<le> end_c (cs ! k)" by (rule nonempty)
    show "(\<Union>k \<in> {..<length cs}. {start (cs ! k)..end_c (cs ! k)}) = {0..sz - 1}"
      by (rule facts(7))
    show "\<forall>j k. j < k \<and> k < length cs \<longrightarrow>
            {start (cs ! j)..end_c (cs ! j)} \<inter> {start (cs ! k)..end_c (cs ! k)} = {}"
      by (rule facts(8))
  qed
qed

theorem chunk_ranges_partition_nonempty_witness:
  "on_chunks (\<lambda>c. (start c, end_c c)) (make_chunks 100000 4 ''/d/f.bin'')
     = [(0, 24999), (25000, 49999), (50000, 74999), (75000, 99999)]
   \<and> (\<exists>cs. make_chunks 100000 4 ''/d/f.bin'' = Inr cs \<and> int (length cs) = 4
         \<and> start (cs ! 0) = 0 \<and> end_c (cs ! (length cs - 1)) = 99999
         \<and> (\<Union>k \<in> {..<length cs}. {start (cs ! k)..end_c (cs ! k)}) = {0..99999})"
proof -
  have a: "(0::int) < 4" and b: "(4::int) \<le> 100000" by simp_all
  have 1: "on_chunks (\<lambda>c. (start c, end_c c)) (make_chunks 100000 4 ''/d/f.bin'')
     = [(0, 24999), (25000, 49999), (50000, 74999), (75000, 99999)]"
    by code_simp
  from chunk_ranges_partition_nonempty [OF a b, of "''/d/f.bin''"]
  obtain cs where cs: "make_chunks 100000 4 ''/d/f.bin'' = Inr cs" "int (length cs) = 4"
    "start (cs ! 0) = 0" "end_c (cs ! (length cs - 1)) = 100000 - 1"
    "(\<Union>k \<in> {..<length cs}. {start (cs ! k)..end_c (cs ! k)}) = {0..100000 - 1}"
    by (elim exE conjE)
  have 2: "\<exists>cs. make_chunks 100000 4 ''/d/f.bin'' = Inr cs \<and> int (length cs) = 4
         \<and> start (cs ! 0) = 0 \<and> end_c (cs ! (length cs - 1)) = 99999
         \<and> (\<Union>k \<in> {..<length cs}. {start (cs ! k)..end_c (cs ! k)}) = {0..99999}"
    using cs by (intro exI [of _ cs]) simp
  from 1 2 show ?thesis by (rule conjI)
qed

section \<open>The policy Auto rename\<close>

lemma rename_loop_smallest:
  assumes "target_path = numbered base ext n" and "counter = Suc n"
    and "\<forall>j. 1 \<le> j \<and> j < n \<longrightarrow> path_exists files (numbered base ext j)"
  shows "\<exists>k\<ge>n. rename_loop files base ext target_path counter = (numbered base ext k, Suc k)
           \<and> \<not> path_exists files (numbered base ext k)
           \<and> (\<forall>j. n \<le> j \<and> j < k \<longrightarrow> path_exists files (numbered base ext j))"
  using assms
proof (induction files base ext target_path counter arbitrary: n rule: rename_loop.induct)
  case (1 files base ext target_path counter)
  show ?case
  proof (cases "path_exists files target_path")
    case False
    then have "rename_loop files base ext target_path counter = (numbered base ext n, Suc n)"
      using "1.prems" by (subst rename_loop.simps) simp
    with False "1.prems" show ?thesis by auto
  next
    case True
    have inv: "\<forall>j. 1 \<le> j \<and> j < Suc n \<longrightarrow> path_exists files (numbered base ext j)"
      using True "1.prems" by (auto simp: less_Suc_eq)
    from "1.IH" [OF True, of "Suc n"] "1.prems" inv
    obtain k where k: "Suc n \<le> k"
      "rename_loop files base ext (numbered base ext counter) (counter + 1)
         = (numbered base ext k, Suc k)"
      "\<not> path_exists files (numbered base ext k)"
      "\<forall>j. Suc n \<le> j \<and> j < k \<longrightarrow> path_exists files (numbered base ext j)"
      by auto
    have "rename_loop files base ext target_path counter = (numbered base ext k, Suc k)"
      using True k(2) by (subst rename_loop.simps) simp
    moreover have "\<forall>j. n \<le> j \<and> j < k \<longrightarrow> path_exists files (numbered base ext j)"
    proof (intro allI impI)
      fix j assume j: "n \<le> j \<and> j < k"
      show "path_exists files (numbered base ext j)"
      proof (cases "j = n")
        case True
        with \<open>path_exists files target_path\<close> "1.prems" show ?thesis by simp
      next
        case False
        with j k(4) show ?thesis by simp
      qed
    qed
    ultimately show ?thesis using k(1,3) by (intro exI [of _ k]) simp
  qed
qed

lemma join_prefix:
  assumes "CHR ''/'' \<notin> set b"
  shows "join a b = dir_prefix a @ b"
proof -
  have "\<not> (b \<noteq> [] \<and> hd b = CHR ''/'')" using assms by (cases b) auto
  then show ?thesis by (auto simp: join_def dir_prefix_def)
qed

lemma basename_prefix:
  assumes "CHR ''/'' \<notin> set x"
  shows "basename (dir_prefix a @ x) = x"
proof -
  have 1: "takeWhile (\<lambda>c. c \<noteq> CHR ''/'') (rev x @ rev (dir_prefix a))
             = rev x @ takeWhile (\<lambda>c. c \<noteq> CHR ''/'') (rev (dir_prefix a))"
    using assms by (intro takeWhile_append2) auto
  have 2: "takeWhile (\<lambda>c. c \<noteq> CHR ''/'') (rev (dir_prefix a)) = []"
  proof (cases "dir_prefix a = []")
    case True
    then show ?thesis by simp
  next
    case False
    then have "last (dir_prefix a) = CHR ''/''" by (auto simp: dir_prefix_def)
    with False have "hd (rev (dir_prefix a)) = CHR ''/''" by (simp add: hd_rev)
    with False show ?thesis by (cases "rev (dir_prefix a)") auto
  qed
  from 1 2 show ?thesis by (simp add: basename_def)
qed

lemma splitext_parts:
  assumes "CHR ''/'' \<notin> set fn" and "splitext (dir_prefix a @ fn) = (base, ext)"
  shows "\<exists>s. base = dir_prefix a @ s \<and> fn = s @ ext"
proof -
  have bn: "basename (dir_prefix a @ fn) = fn" using assms(1) by (rule basename_prefix)
  show ?thesis
  proof (cases "CHR ''.'' \<in> set fn")
    case False
    with assms(2) bn show ?thesis by (simp add: splitext_def Let_def)
  next
    case True
    define e where "e = CHR ''.'' # rev (takeWhile (\<lambda>c. c \<noteq> CHR ''.'') (rev fn))"
    define rest where "rest = tl (dropWhile (\<lambda>c. c \<noteq> CHR ''.'') (rev fn))"
    have "dropWhile (\<lambda>c. c \<noteq> CHR ''.'') (rev fn) \<noteq> []" using True by (auto simp: dropWhile_eq_Nil_conv)
    moreover have "hd (dropWhile (\<lambda>c. c \<noteq> CHR ''.'') (rev fn)) = CHR ''.''"
      using calculation hd_dropWhile [of "\<lambda>c. c \<noteq> CHR ''.''" "rev fn"] by simp
    ultimately have dw: "dropWhile (\<lambda>c. c \<noteq> CHR ''.'') (rev fn) = CHR ''.'' # rest"
      by (cases "dropWhile (\<lambda>c. c \<noteq> CHR ''.'') (rev fn)") (auto simp: rest_def)
    have "rev fn = takeWhile (\<lambda>c. c \<noteq> CHR ''.'') (rev fn) @ CHR ''.'' # rest"
      using takeWhile_dropWhile_id [of "\<lambda>c. c \<noteq> CHR ''.''" "rev fn"] dw by simp
    then have "rev (rev fn) = rev (takeWhile (\<lambda>c. c \<noteq> CHR ''.'') (rev fn) @ CHR ''.'' # rest)"
      by simp
    then have fn: "fn = rev rest @ e" by (simp add: e_def)
    then have st: "take (length fn - length e) fn = rev rest" by simp
    have hd: "take (length (dir_prefix a @ fn) - length fn) (dir_prefix a @ fn) = dir_prefix a"
      by simp
    show ?thesis
    proof (cases "list_ex (\<lambda>c. c \<noteq> CHR ''.'') (rev rest)")
      case True
      with assms(2) bn \<open>CHR ''.'' \<in> set fn\<close> st hd
      have "base = dir_prefix a @ rev rest \<and> ext = e"
        by (simp add: splitext_def Let_def e_def [symmetric])
      with fn show ?thesis by simp
    next
      case False
      with assms(2) bn \<open>CHR ''.'' \<in> set fn\<close> st hd
      have "base = dir_prefix a @ fn \<and> ext = []"
        by (simp add: splitext_def Let_def e_def [symmetric])
      then show ?thesis by simp
    qed
  qed
qed

lemma str_nat_no_sep: "CHR ''/'' \<notin> set (str_nat n)"
proof (induction n rule: str_nat.induct)
  case (1 n)
  have d: "digit_char k \<noteq> CHR ''/''" if "k < 10" for k
  proof
    assume "digit_char k = CHR ''/''"
    then have "of_char (digit_char k) = (of_char (CHR ''/'') :: nat)" by simp
    with that show False by (simp add: digit_char_def)
  qed
  show ?case
  proof (cases "n < 10")
    case True
    then show ?thesis using d [of n] by (subst str_nat.simps) auto
  next
    case False
    with 1 have "CHR ''/'' \<notin> set (str_nat (n div 10))" by simp
    moreover have "digit_char (n mod 10) \<noteq> CHR ''/''" by (rule d) simp
    ultimately show ?thesis using False by (subst str_nat.simps) auto
  qed
qed

lemma renamed_target_path:
  assumes "CHR ''/'' \<notin> set (filename d)" and "splitext (get_target_path d) = (base, ext)"
  shows "get_target_path (d\<lparr>filename := basename (numbered base ext k)\<rparr>) = numbered base ext k"
proof -
  have tp: "get_target_path d = dir_prefix (target_dir d) @ filename d"
    using assms(1) by (simp add: get_target_path_def join_prefix)
  have "splitext (dir_prefix (target_dir d) @ filename d) = (base, ext)"
    using assms(2) tp by simp
  from splitext_parts [OF assms(1) this]
  obtain s where s: "base = dir_prefix (target_dir d) @ s" "filename d = s @ ext" by blast
  define x where "x = s @ '' ('' @ str_nat k @ '')'' @ ext"
  have x: "CHR ''/'' \<notin> set x"
    using assms(1) s(2) str_nat_no_sep [of k] by (auto simp: x_def)
  have n: "numbered base ext k = dir_prefix (target_dir d) @ x"
    by (simp add: numbered_def s(1) x_def)
  have "basename (numbered base ext k) = x"
    unfolding n using x by (rule basename_prefix)
  then show ?thesis using x n by (simp add: get_target_path_def join_prefix)
qed

text \<open>
  What holds of claim C8 on every input. Under the policy \<^verbatim>\<open>Auto rename\<close>, when the
  target path exists, the conflict block of both executors adopts the path
  \<^verbatim>\<open>"<base> (<counter>)<ext>"\<close>, \<open>base\<close> and \<open>ext\<close> being the two parts that
  \<open>splitext\<close> makes of the target path, for the smallest counter from \<open>1\<close> on whose
  path does not exist, and sets the file name of the download to the last component of
  the adopted path. Only for a file name without a separator is the target path of the
  renamed download then the adopted path.
\<close>

theorem auto_rename_smallest_counter:
  assumes "file_conflict c = ''Auto rename''"
    and "path_exists files (get_target_path d)"
    and "splitext (get_target_path d) = (base, ext)"
  shows "\<exists>k\<ge>1. resolve_conflict c files d
             = Some (numbered base ext k, d\<lparr>filename := basename (numbered base ext k)\<rparr>)
           \<and> \<not> path_exists files (numbered base ext k)
           \<and> (\<forall>j. 1 \<le> j \<and> j < k \<longrightarrow> path_exists files (numbered base ext j))
           \<and> (CHR ''/'' \<notin> set (filename d) \<longrightarrow>
                get_target_path (d\<lparr>filename := basename (numbered base ext k)\<rparr>)
                  = numbered base ext k)"
proof -
  have first: "rename_loop files base ext (get_target_path d) 1
                 = rename_loop files base ext (numbered base ext 1) (Suc 1)"
    using assms(2) by (subst rename_loop.simps) simp
  have "\<forall>j. 1 \<le> j \<and> j < (1::nat) \<longrightarrow> path_exists files (numbered base ext j)"
    by simp
  from rename_loop_smallest [OF refl refl this]
  obtain k where k: "1 \<le> k"
    "rename_loop files base ext (numbered base ext 1) (Suc 1) = (numbered base ext k, Suc k)"
    "\<not> path_exists files (numbered base ext k)"
    "\<forall>j. 1 \<le> j \<and> j < k \<longrightarrow> path_exists files (numbered base ext j)"
    by blast
  have "resolve_conflict c files d
          = Some (numbered base ext k, d\<lparr>filename := basename (numbered base ext k)\<rparr>)"
    using assms first k(2) by (simp add: resolve_conflict_def Let_def)
  moreover have "CHR ''/'' \<notin> set (filename d) \<longrightarrow>
      get_target_path (d\<lparr>filename := basename (numbered base ext k)\<rparr>) = numbered base ext k"
    using renamed_target_path [OF _ assms(3)] by blast
  ultimately show ?thesis using k(1,3,4) by blast
qed

theorem auto_rename_smallest_counter_witness:
  "resolve_conflict example_config [''/d/out.bin'', ''/d/out (1).bin'']
      ((example_download Downloading)\<lparr>filename := ''out.bin''\<rparr>)
     = Some (''/d/out (2).bin'', (example_download Downloading)\<lparr>filename := ''out (2).bin''\<rparr>)
   \<and> (\<exists>k\<ge>1. resolve_conflict example_config [''/d/out.bin'', ''/d/out (1).bin'']
                ((example_download Downloading)\<lparr>filename := ''out.bin''\<rparr>)
              = Some (numbered ''/d/out'' ''.bin'' k,
                      (example_download Downloading)
                        \<lparr>filename := ''out.bin'', filename := basename (numbered ''/d/out'' ''.bin'' k)\<rparr>)
            \<and> \<not> path_exists [''/d/out.bin'', ''/d/out (1).bin''] (numbered ''/d/out'' ''.bin'' k)
            \<and> (\<forall>j. 1 \<le> j \<and> j < k \<longrightarrow>
                  path_exists [''/d/out.bin'', ''/d/out (1).bin''] (numbered ''/d/out'' ''.bin'' j))
            \<and> (CHR ''/'' \<notin> set (filename ((example_download Downloading)\<lparr>filename := ''out.bin''\<rparr>))
                 \<longrightarrow> get_target_path
                       ((example_download Downloading)
                          \<lparr>filename := ''out.bin'',
                           filename := basename (numbered ''/d/out'' ''.bin'' k)\<rparr>)
                     = numbered ''/d/out'' ''.bin'' k))"
proof -
  have a: "file_conflict example_config = ''Auto rename''"
    by (simp add: example_config_def)
  have b: "path_exists [''/d/out.bin'', ''/d/out (1).bin'']
             (get_target_path ((example_download Downloading)\<lparr>filename := ''out.bin''\<rparr>))"
    by code_simp
  have c: "splitext (get_target_path ((example_download Downloading)\<lparr>filename := ''out.bin''\<rparr>))
             = (''/d/out'', ''.bin'')"
    by code_simp
  have 1: "resolve_conflict example_config [''/d/out.bin'', ''/d/out (1).bin'']
      ((example_download Downloading)\<lparr>filename := ''out.bin''\<rparr>)
     = Some (''/d/out (2).bin'', (example_download Downloading)\<lparr>filename := ''out (2).bin''\<rparr>)"
    by code_simp
  note 2 = auto_rename_smallest_counter [OF a b c]
  from 1 2 show ?thesis by (rule conjI)
qed

text \<open>
  Claim C8 fails on the code for a file name with a directory part, which the
  \<^verbatim>\<open>Content-Disposition\<close> header can give. For the name \<^verbatim>\<open>sub/f.bin\<close>, with
  \<^verbatim>\<open>/d/sub/f.bin\<close> present, the executor adopts and writes \<^verbatim>\<open>/d/sub/f (1).bin\<close>,
  but \<^verbatim>\<open>os.path.basename\<close> sets the file name of the download to \<^verbatim>\<open>f (1).bin\<close>:
  not the adopted name, and the name of a file that exists in the target directory;
  \<open>get_target_path\<close> no longer gives the path of the downloaded file.
\<close>

theorem renamed_filename_loses_directory:
  "(case probe subdir_head (objs started 0) of
      Inl _ \<Rightarrow> None
    | Inr d \<Rightarrow> Some (filename d, get_target_path d)) = Some (''sub/f.bin'', ''/d/sub/f.bin'')
   \<and> path_exists subdir_files ''/d/sub/f.bin''
   \<and> \<not> path_exists subdir_files ''/d/sub/f (1).bin''
   \<and> path_exists subdir_files ''/d/f (1).bin''
   \<and> fst subdir_run = Returned True
   \<and> path_exists (snd (snd subdir_run)) ''/d/sub/f (1).bin''
   \<and> filename (objs (fst (snd subdir_run)) 0) = ''f (1).bin''
   \<and> get_target_path (objs (fst (snd subdir_run)) 0) = ''/d/f (1).bin''"
  by code_simp

section \<open>The three runs, evaluated\<close>

text \<open>
  Claim C1 fails on the code. After the pause the counter is \<open>5\<close>; the resumed run
  streams the whole body again without resetting the counter, so that the download,
  of probed size \<open>10\<close>, has \<open>downloaded = 15\<close> while its status is still Downloading.
\<close>

theorem downloaded_exceeds_size_after_resume:
  "fst paused_run = Returned False
   \<and> status (objs (fst (snd paused_run)) 0) = Paused
   \<and> downloaded (objs (fst (snd paused_run)) 0) = 5
   \<and> status (objs resumed 0) = Downloading
   \<and> fst resumed_run = Returned True
   \<and> status (objs (fst (snd resumed_run)) 0) = Downloading
   \<and> size_d (objs (fst (snd resumed_run)) 0) = 10
   \<and> downloaded (objs (fst (snd resumed_run)) 0) = 15"
  by code_simp

text \<open>
  Claim C2 fails on the code. The download is Canceled when the executor returns, and
  the commit of the worker, which tests the status only on the failure branch, makes it
  Completed: a transition out of a terminal status, which is no edge of the state
  machine. The last conjunct is the same run as one iteration of the worker's loop.
\<close>

theorem completed_after_canceled:
  "status (objs added 0) = Waiting
   \<and> status (objs started 0) = Downloading
   \<and> fst late_cancel_run = Returned True
   \<and> status (objs (fst (snd late_cancel_run)) 0) = Canceled
   \<and> status (objs late_cancel_committed 0) = Completed
   \<and> (Canceled, Completed) \<notin> legal_edges
   \<and> signals late_cancel_committed =
       [download_added ''a'', download_started ''a'', download_progress ''a'' 5 10,
        download_progress ''a'' 10 10, download_canceled ''a'', download_completed ''a'']
   \<and> map_option (\<lambda>(m, files). (status (objs m 0), signals m, files))
         (download_worker (world_of [Data 5, Data 5, Ctl Cancel]) added [])
       = Some (Completed, signals late_cancel_committed, [''/d/f.bin'', ''/d''])"
proof -
  have edge: "(Canceled, Completed) \<notin> legal_edges"
    by (simp add: legal_edges_def)
  have run: "status (objs added 0) = Waiting
   \<and> status (objs started 0) = Downloading
   \<and> fst late_cancel_run = Returned True
   \<and> status (objs (fst (snd late_cancel_run)) 0) = Canceled
   \<and> status (objs late_cancel_committed 0) = Completed
   \<and> signals late_cancel_committed =
       [download_added ''a'', download_started ''a'', download_progress ''a'' 5 10,
        download_progress ''a'' 10 10, download_canceled ''a'', download_completed ''a'']
   \<and> map_option (\<lambda>(m, files). (status (objs m 0), signals m, files))
         (download_worker (world_of [Data 5, Data 5, Ctl Cancel]) added [])
       = Some (Completed, signals late_cancel_committed, [''/d/f.bin'', ''/d''])"
    by code_simp
  from edge run show ?thesis by blast
qed

text \<open>
  Claim C3 fails on the code. The single-stream executor returns \<^verbatim>\<open>False\<close> at the
  status check without removing the part file, so the file \<^verbatim>\<open>/d/f.bin.part\<close> exists
  when the download has reached Canceled, also after the commit of the worker (the
  last conjunct, on one iteration of the worker's loop).
\<close>

theorem part_file_left_after_cancel:
  "fst cancel_run = Returned False
   \<and> status (objs (worker_commit (fst (snd cancel_run)) ''a'' (fst cancel_run)) 0) = Canceled
   \<and> path_exists (snd (snd cancel_run)) ''/d/f.bin.part''
   \<and> snd (snd cancel_run) = [''/d/f.bin.part'', ''/d'']
   \<and> map_option (\<lambda>(m, files). (status (objs m 0), files))
         (download_worker (world_of [Data 5, Ctl Cancel, Data 5]) added [])
       = Some (Canceled, [''/d/f.bin.part'', ''/d''])"
  by code_simp

text \<open>
  The segmented executor, by contrast, removes every part file before it returns,
  whatever its threads did.
\<close>

lemma cleanup_set:
  fixes cs :: "chunk list"
  shows "set (cleanup cs files) = set files - temp_file ` set cs"
  unfolding cleanup_def
  by (induction cs arbitrary: files) (auto simp: os_remove_def)

lemma cleanup_removes_all:
  fixes c :: chunk
  shows "c \<in> set cs \<Longrightarrow> \<not> path_exists (cleanup cs files) (temp_file c)"
  by (simp add: cleanup_set path_exists_def)

text \<open>
  Whenever \<open>download_in_chunks\<close> gets past the conflict block and returns, with
  \<^verbatim>\<open>True\<close> or \<^verbatim>\<open>False\<close>, no part file of a chunk of the download exists.
\<close>

lemma download_in_chunks_removes_parts:
  assumes "download_in_chunks m files r net hdrs = (Returned b, m1, files1)"
    and "resolve_conflict (cfg m) files (objs m r) \<noteq> None"
    and "c \<in> set (chunks (objs m1 r))"
  shows "\<not> path_exists files1 (temp_file c)"
  using assms
  by (auto simp: download_in_chunks_def Let_def set_error_def cleanup_removes_all
      split: option.splits sum.splits prod.splits if_splits)

end
